theory Spec2Isabelle
  imports Main "HOL-Library.Sublist" "HOL-Library.AList"
begin

section \<open>Strings, bytes and paths\<close>

text \<open>
  A Python \<open>bytes\<close> value is a list of 8-bit characters, and so is a HOL \<open>string\<close>;
  file contents and magic prefixes are strings whose characters are the bytes.
  Path names are strings too: a character of a name is a code point below 256. On these
  \<open>lower\<close> is \<open>str.lower\<close>: the letters \<open>A\<close>..\<open>Z\<close> and the upper-case letters
  of the Latin-1 block (192 to 222 without the multiplication sign 215) move up by 32, every
  other character is its own lower case. Names with a code point from 256 on are outside
  the model; among them U+212A (the Kelvin sign) is the one whose lower case is an ASCII
  letter, so a suffix written with it can match the extension table in the program.
\<close>

definition lower_char :: "char \<Rightarrow> char" where
  "lower_char c =
     (let n = (of_char c :: nat) in
      if (65 \<le> n \<and> n \<le> 90) \<or> (192 \<le> n \<and> n \<le> 222 \<and> n \<noteq> 215)
      then char_of (n + 32) else c)"

definition lower :: "string \<Rightarrow> string" where
  "lower s = map lower_char s"

text \<open>\<open>s.rfind(c)\<close>: the index of the last occurrence, \<open>None\<close> for Python's \<open>-1\<close>.\<close>

definition rfind :: "char \<Rightarrow> string \<Rightarrow> nat option" where
  "rfind c s =
     (case filter (\<lambda>i. s ! i = c) (rev [0..<length s]) of
        [] \<Rightarrow> None
      | i # _ \<Rightarrow> Some i)"

text \<open>\<open>s.split('/')\<close>.\<close>

fun split_sep :: "string \<Rightarrow> string list" where
  "split_sep [] = [[]]"
| "split_sep (c # cs) =
     (if c = CHR ''/'' then [] # split_sep cs
      else (case split_sep cs of [] \<Rightarrow> [[c]] | w # ws \<Rightarrow> (c # w) # ws))"

text \<open>
  \<open>Path(p).name\<close> (pathlib, POSIX flavour): the path is split at the separator, empty
  and \<open>.\<close> components are dropped, and the name is the last component left, or the empty
  string when there is none.
\<close>

definition path_name :: "string \<Rightarrow> string" where
  "path_name p =
     (case filter (\<lambda>x. x \<noteq> [] \<and> x \<noteq> ''.'') (split_sep p) of
        [] \<Rightarrow> []
      | x # xs \<Rightarrow> last (x # xs))"

text \<open>
  \<open>Path(p).suffix\<close> and \<open>Path(p).stem\<close> (pathlib up to Python 3.13): the name is cut
  at its last dot when that dot is neither the first nor the last character.
\<close>

definition name_suffix :: "string \<Rightarrow> string" where
  "name_suffix name =
     (case rfind CHR ''.'' name of
        None \<Rightarrow> []
      | Some i \<Rightarrow> if 0 < i \<and> i < length name - 1 then drop i name else [])"

definition name_stem :: "string \<Rightarrow> string" where
  "name_stem name =
     (case rfind CHR ''.'' name of
        None \<Rightarrow> name
      | Some i \<Rightarrow> if 0 < i \<and> i < length name - 1 then take i name else name)"

definition suffix_of :: "string \<Rightarrow> string" where
  "suffix_of p = name_suffix (path_name p)"

definition stem_of :: "string \<Rightarrow> string" where
  "stem_of p = name_stem (path_name p)"

text \<open>\<open>os.path.basename(p)\<close> (posixpath): what follows the last separator.\<close>

definition basename :: "string \<Rightarrow> string" where
  "basename p = (case rfind CHR ''/'' p of None \<Rightarrow> p | Some i \<Rightarrow> drop (i + 1) p)"

text \<open>\<open>os.path.join(a, b)\<close> (posixpath, two arguments).\<close>

definition path_join :: "string \<Rightarrow> string \<Rightarrow> string" where
  "path_join a b =
     (if b \<noteq> [] \<and> hd b = CHR ''/'' then b
      else if a = [] \<or> last a = CHR ''/'' then a @ b
      else a @ ''/'' @ b)"

text \<open>
  \<open>os.path.splitext(p)\<close> (posixpath): the split is at the last dot, if that dot lies
  after the last separator and some character between the separator and the dot is not a
  dot; otherwise the extension is empty.
\<close>

definition splitext :: "string \<Rightarrow> string \<times> string" where
  "splitext p =
     (case rfind CHR ''.'' p of
        None \<Rightarrow> (p, [])
      | Some d \<Rightarrow>
          (let start = (case rfind CHR ''/'' p of None \<Rightarrow> 0 | Some s \<Rightarrow> s + 1)
           in if start \<le> d \<and> list_ex (\<lambda>k. p ! k \<noteq> CHR ''.'') [start..<d]
              then (take d p, drop d p) else (p, [])))"

text \<open>\<open>str(n)\<close> for Python ints: decimal digits, with a minus sign below zero.\<close>

definition digit_char :: "nat \<Rightarrow> char" where
  "digit_char d = char_of (48 + d)"

fun str_nat :: "nat \<Rightarrow> string" where
  "str_nat n = (if n < 10 then [digit_char n] else str_nat (n div 10) @ [digit_char (n mod 10)])"

definition str_int :: "int \<Rightarrow> string" where
  "str_int i = (if i < 0 then CHR ''-'' # str_nat (nat (- i)) else str_nat (nat i))"

section \<open>The signature table and the extension table\<close>

text \<open>
  \<open>signatures\<close> is the dictionary literal of \<open>detect_file_type\<close>, in the order of its
  declaration, which is the order in which a Python dictionary is iterated. Its keys are
  pairwise different, so no entry replaces an earlier one.
\<close>

definition signatures :: "(string \<times> string \<times> string) list" where
  "signatures =
    [ ([CHR 0xFF, CHR 0xD8, CHR 0xFF], ''Images'', ''jpeg''),
      ([CHR 0x89] @ ''PNG'' @ [CHR 0x0D, CHR 0x0A, CHR 0x1A, CHR 0x0A], ''Images'', ''png''),
      (''GIF87a'', ''Images'', ''gif''),
      (''GIF89a'', ''Images'', ''gif''),
      (''BM'', ''Images'', ''bmp''),
      (''ftypheic'', ''Images'', ''heic''),
      (''ftypheix'', ''Images'', ''heic''),
      (''ftypmif1'', ''Images'', ''heic''),
      (''ftypmsf1'', ''Images'', ''heic''),
      (''RIFF'', ''Videos'', ''webp''),
      ([CHR 0x00, CHR 0x00, CHR 0x00, CHR 0x18] @ ''ftypmp4'', ''Videos'', ''mp4''),
      ([CHR 0x00, CHR 0x00, CHR 0x00, CHR 0x20] @ ''ftypM4V'', ''Videos'', ''mp4''),
      (''%PDF'', ''Documents'', ''pdf''),
      (''PK'' @ [CHR 0x03, CHR 0x04], ''Documents'', ''office''),
      (''ID3'', ''Audio'', ''mp3''),
      ([CHR 0xFF, CHR 0xFB], ''Audio'', ''mp3''),
      ([CHR 0xFF, CHR 0xF3], ''Audio'', ''mp3''),
      (''fLaC'', ''Audio'', ''flac''),
      (''OggS'', ''Audio'', ''ogg''),
      (''PK'', ''Archives'', ''zip''),
      (''Rar!'', ''Archives'', ''rar''),
      (''7z'' @ [CHR 0xBC, CHR 0xAF, CHR 0x27] @ ''27'' @ [CHR 0x1C], ''Archives'', ''7z''),
      (''MZ'', ''Executables'', ''exe'') ]"

definition SUPPORTED_FORMATS :: "(string \<times> string list) list" where
  "SUPPORTED_FORMATS =
    [ (''Images'', [''.jpg'', ''.jpeg'', ''.png'', ''.bmp'', ''.tiff'', ''.gif'', ''.webp'', ''.heic'']),
      (''Documents'', [''.pdf'', ''.docx'', ''.doc'', ''.txt'', ''.pptx'', ''.ppt'']),
      (''Videos'', [''.mp4'', ''.avi'', ''.mkv'', ''.mov'', ''.wmv'', ''.flv'', ''.webm'']),
      (''Audio'', [''.mp3'', ''.flac'', ''.wav'', ''.ogg'', ''.m4a'', ''.aac'']),
      (''Archives'', [''.zip'', ''.rar'', ''.7z'', ''.tar'', ''.gz'']),
      (''Executables'', [''.exe'', ''.msi'', ''.dmg'', ''.deb'', ''.rpm'']) ]"

section \<open>The environment\<close>

text \<open>
  The calls that leave the program (the file system and the decoding libraries) are
  read from an environment. A call that may raise has its outcome there: \<open>Inl\<close> or
  \<open>None\<close> is the exception, with its text where the program uses the text. The
  outcome of a call on given arguments is the same throughout a run: the source tree is
  not changed while it is organized.

  \<^item> \<open>e_read p\<close>: \<open>os.path.getsize\<close>, \<open>open(p, 'rb')\<close> and the reads of \<open>p\<close>: the
    text of the exception, or the content of the file.
  \<^item> \<open>e_image\<close>, \<open>e_video\<close>, \<open>e_audio\<close>, \<open>e_pdf\<close>, \<open>e_docx\<close>, \<open>e_pptx\<close>,
    \<open>e_txt\<close>: what Pillow, OpenCV, mutagen, PyPDF2, python-docx, python-pptx and the
    text reader find in \<open>p\<close>; the outer \<open>None\<close> is an exception, the inner \<open>None\<close>
    of the video and audio decoders is a capture that did not open or a file without
    stream information.
  \<^item> \<open>e_mkdir_err d\<close>: the exception of \<open>os.makedirs(d, exist_ok=True)\<close> for a
    reason other than a regular file standing at \<open>d\<close>: its text, and the number of
    missing ancestors of \<open>d\<close> that were created before it was raised.
  \<^item> \<open>e_copy_err src dst\<close>: the exception of \<open>shutil.copy2(src, dst)\<close> for a reason
    other than a source that cannot be opened: its text, and what the call leaves at
    \<open>dst\<close>: nothing (\<open>None\<close>), or a file with the bytes written before the exception
    (a disk that fills up, or \<open>copystat\<close> failing after the whole content is written).
  \<^item> \<open>e_progress\<close>: the progress callback, which may raise.
  \<^item> \<open>e_walk root\<close>: the files \<open>os.walk(root)\<close> enumerates, joined to their
    directories; \<open>os.walk\<close> ignores the errors of the enumeration, so a root that does
    not exist or cannot be read gives the empty list.
\<close>

record env =
  e_read :: "string \<Rightarrow> string + string"
  e_image :: "string \<Rightarrow> (int \<times> int \<times> string) option"
  e_video :: "string \<Rightarrow> (int \<times> int \<times> int) option option"
  e_audio :: "string \<Rightarrow> (int \<times> int) option option"
  e_pdf :: "string \<Rightarrow> nat option"
  e_docx :: "string \<Rightarrow> nat option"
  e_pptx :: "string \<Rightarrow> nat option"
  e_txt :: "string \<Rightarrow> nat option"
  e_mkdir_err :: "string \<Rightarrow> (string \<times> nat) option"
  e_copy_err :: "string \<Rightarrow> string \<Rightarrow> (string \<times> string option) option"
  e_progress :: "(nat \<Rightarrow> nat \<Rightarrow> string \<Rightarrow> string option) option"
  e_walk :: "string \<Rightarrow> string list"

section \<open>The classifier\<close>

text \<open>The loop over \<open>signatures.items()\<close>: the first key the header starts with.\<close>

fun match_signature :: "(string \<times> string \<times> string) list \<Rightarrow> string \<Rightarrow> (string \<times> string) option" where
  "match_signature [] header = None"
| "match_signature ((sig, category, format_type) # rest) header =
     (if prefix sig header then Some (category, format_type)
      else match_signature rest header)"

text \<open>The loop over \<open>SUPPORTED_FORMATS.items()\<close>: the first category that lists \<open>ext\<close>.\<close>

fun match_extension :: "(string \<times> string list) list \<Rightarrow> string \<Rightarrow> string option" where
  "match_extension [] ext = None"
| "match_extension ((category, extensions) # rest) ext =
     (if ext \<in> set extensions then Some category else match_extension rest ext)"

text \<open>
  \<open>FileProcessor.detect_file_type\<close>. The result is the triple (category, format,
  detection method). The logger only writes log files and is left out; it is the one
  difference between the two source files for this function.
\<close>

definition detect_file_type :: "env \<Rightarrow> string \<Rightarrow> string \<times> string \<times> string" where
  "detect_file_type env file_path =
     (case e_read env file_path of
        Inl e \<Rightarrow> (''Error'', e, ''error'')
      | Inr content \<Rightarrow>
          (let header = take 32 content in
           case match_signature signatures header of
             Some (category, format_type) \<Rightarrow> (category, format_type, ''magic_bytes'')
           | None \<Rightarrow>
               (let ext = lower (suffix_of file_path) in
                case match_extension SUPPORTED_FORMATS ext of
                  Some category \<Rightarrow> (category, drop 1 ext, ''file_extension'')
                | None \<Rightarrow> (''Other'', ''unknown'', ''unknown''))))"

section \<open>The metadata probes\<close>

text \<open>
  Each probe wraps its decoder in \<open>try\<close>/\<open>except Exception\<close>. The image, video and
  audio probes return \<open>"unknown"\<close> from the handler; the document probe returns
  \<open>"document"\<close> from its handler, the value it starts from.
\<close>

definition get_image_info :: "env \<Rightarrow> string \<Rightarrow> string" where
  "get_image_info env file_path =
     (case e_image env file_path of
        None \<Rightarrow> ''unknown''
      | Some (width, height, fmt) \<Rightarrow> str_int width @ ''x'' @ str_int height @ ''_'' @ fmt)"

definition get_video_info :: "env \<Rightarrow> string \<Rightarrow> string" where
  "get_video_info env file_path =
     (case e_video env file_path of
        None \<Rightarrow> ''unknown''
      | Some None \<Rightarrow> ''unknown''
      | Some (Some (width, height, fps)) \<Rightarrow>
          str_int width @ ''x'' @ str_int height @ ''_'' @ str_int fps @ ''fps'')"

definition get_audio_info :: "env \<Rightarrow> string \<Rightarrow> string" where
  "get_audio_info env file_path =
     (case e_audio env file_path of
        None \<Rightarrow> ''unknown''
      | Some None \<Rightarrow> ''unknown''
      | Some (Some (duration, bitrate)) \<Rightarrow> str_int duration @ ''s_'' @ str_int bitrate @ ''kbps'')"

definition get_document_info :: "env \<Rightarrow> string \<Rightarrow> string" where
  "get_document_info env file_path =
     (let ext = lower (suffix_of file_path) in
      if ext = ''.pdf'' then
        (case e_pdf env file_path of None \<Rightarrow> ''document'' | Some n \<Rightarrow> str_nat n @ ''pages'')
      else if ext \<in> set [''.docx'', ''.doc''] then
        (case e_docx env file_path of None \<Rightarrow> ''document'' | Some n \<Rightarrow> str_nat n @ ''paragraphs'')
      else if ext \<in> set [''.pptx'', ''.ppt''] then
        (case e_pptx env file_path of None \<Rightarrow> ''document'' | Some n \<Rightarrow> str_nat n @ ''slides'')
      else if ext = ''.txt'' then
        (case e_txt env file_path of None \<Rightarrow> ''document'' | Some n \<Rightarrow> str_nat n @ ''lines'')
      else ''document'')"

text \<open>
  \<open>FileProcessor.create_organized_filename\<close>. A Python string is true when it is not
  empty.
\<close>

definition create_organized_filename :: "env \<Rightarrow> string \<Rightarrow> string \<Rightarrow> string" where
  "create_organized_filename env file_path category =
     (let original_name = stem_of file_path;
          extension = suffix_of file_path;
          extension =
            (if extension = [] then
               (case detect_file_type env file_path of
                  (_, format_type, _) \<Rightarrow>
                    if format_type \<noteq> [] \<and> format_type \<noteq> ''unknown''
                    then ''.'' @ format_type else ''.unknown'')
             else extension);
          info =
            (if category = ''Images'' then get_image_info env file_path
             else if category = ''Videos'' then get_video_info env file_path
             else if category = ''Audio'' then get_audio_info env file_path
             else if category = ''Documents'' then get_document_info env file_path
             else [])
      in if info \<noteq> [] \<and> info \<noteq> ''unknown''
         then original_name @ ''_'' @ info @ extension
         else original_name @ extension)"

text \<open>
  The extension the file name is given. The same lines stand in
  \<open>create_organized_filename\<close> and in the loop of \<open>process_and_organize_files\<close>: the
  suffix of the name, or, when the name has none, a dot and the detected format, or
  \<open>.unknown\<close>. The definitions above have the lines as the source has them; this
  function names their value for the statements below.
\<close>

definition ensured_extension :: "env \<Rightarrow> string \<Rightarrow> string" where
  "ensured_extension env file_path =
     (if suffix_of file_path = [] then
        (case detect_file_type env file_path of
           (_, format_type, _) \<Rightarrow>
             if format_type \<noteq> [] \<and> format_type \<noteq> ''unknown''
             then ''.'' @ format_type else ''.unknown'')
      else suffix_of file_path)"

section \<open>The file system\<close>

text \<open>
  The part of the file system the run writes to: the regular files with their contents, in
  the order of their creation, and the directories. It holds every path that exists where
  the run looks; the run is the only writer (the program processes its files one after the
  other, in one thread).
\<close>

record fsys =
  fs_files :: "(string \<times> string) list"
  fs_dirs :: "string list"

text \<open>\<open>os.path.exists(p)\<close>.\<close>

definition path_exists :: "fsys \<Rightarrow> string \<Rightarrow> bool" where
  "path_exists fs p \<longleftrightarrow> p \<in> fst ` set (fs_files fs) \<or> p \<in> set (fs_dirs fs)"

text \<open>The directory \<open>d\<close> and the directories above it, as \<open>os.makedirs\<close> visits them.\<close>

definition dir_chain :: "string \<Rightarrow> string list" where
  "dir_chain d = map (\<lambda>i. take i d) (filter (\<lambda>i. d ! i = CHR ''/'') [1..<length d]) @ [d]"

text \<open>
  \<open>os.makedirs(d, exist_ok=True)\<close>, with the file system it leaves and the text of its
  exception, if any. Nothing is done for a directory that exists. A regular file standing at
  \<open>d\<close> is a \<open>FileExistsError\<close>. Otherwise the missing ancestors of \<open>d\<close> are created
  from the top and then \<open>d\<close> itself; when the environment has an exception for the call,
  the ancestors created before it stay.
\<close>

definition makedirs :: "env \<Rightarrow> fsys \<Rightarrow> string \<Rightarrow> fsys \<times> string option" where
  "makedirs env fs d =
     (if d \<in> set (fs_dirs fs) then (fs, None)
      else if d \<in> fst ` set (fs_files fs)
      then (fs, Some (''[Errno 17] File exists: '' @ [CHR 0x27] @ d @ [CHR 0x27]))
      else (let missing = filter (\<lambda>a. \<not> path_exists fs a) (dir_chain d) in
            case e_mkdir_err env d of
              None \<Rightarrow> (fs\<lparr>fs_dirs := fs_dirs fs @ missing\<rparr>, None)
            | Some (e, k) \<Rightarrow>
                (fs\<lparr>fs_dirs := fs_dirs fs @ take k (butlast missing)\<rparr>, Some e)))"

text \<open>
  \<open>shutil.copy2(src, dst)\<close>, with the file system it leaves and the text of its
  exception, if any. The copy goes into the directory when \<open>dst\<close> is one. The source is
  opened first: when that fails, \<open>dst\<close> is not touched. Then \<open>dst\<close> is created, or its
  content replaced when it is a file that exists, and written. An exception after that
  point leaves \<open>dst\<close> behind with the bytes written so far. The modification time the
  call preserves is not modelled.
\<close>

definition copy2 :: "env \<Rightarrow> fsys \<Rightarrow> string \<Rightarrow> string \<Rightarrow> fsys \<times> string option" where
  "copy2 env fs src dst =
     (let dst = (if dst \<in> set (fs_dirs fs) then path_join dst (basename src) else dst) in
      case e_read env src of
        Inl e \<Rightarrow> (fs, Some e)
      | Inr content \<Rightarrow>
          (case e_copy_err env src dst of
             None \<Rightarrow> (fs\<lparr>fs_files := AList.update dst content (fs_files fs)\<rparr>, None)
           | Some (e, None) \<Rightarrow> (fs, Some e)
           | Some (e, Some written) \<Rightarrow>
               (fs\<lparr>fs_files := AList.update dst written (fs_files fs)\<rparr>, Some e)))"

section \<open>Collision resolution\<close>

text \<open>
  The loop
  \<^verbatim>\<open>
  while os.path.exists(dest_path):
      new_filename = f"{base_name}_{counter}{ext}"
      dest_path = os.path.join(dest_folder, new_filename)
      counter += 1
  \<close>
  with the value of \<open>dest_path\<close> at its exit. It ends on every file system, which holds
  finitely many paths: see the termination proof.
\<close>

definition numbered :: "string \<Rightarrow> string \<Rightarrow> string \<Rightarrow> nat \<Rightarrow> string" where
  "numbered dest_folder base_name ext counter =
     path_join dest_folder (base_name @ ''_'' @ str_nat counter @ ext)"

text \<open>
  For the termination proof: the number a decimal string denotes, and the number of
  numbered candidates from \<open>c\<close> on that exist.
\<close>

definition nat_of_digits :: "string \<Rightarrow> nat" where
  "nat_of_digits s = foldl (\<lambda>a c. 10 * a + (of_char c - 48)) 0 s"

definition taken :: "fsys \<Rightarrow> string \<Rightarrow> string \<Rightarrow> string \<Rightarrow> nat \<Rightarrow> nat" where
  "taken fs d b e c = card {k. c \<le> k \<and> path_exists fs (numbered d b e k)}"

function resolve :: "fsys \<Rightarrow> string \<Rightarrow> string \<Rightarrow> string \<Rightarrow> string \<Rightarrow> nat \<Rightarrow> string" where
  "resolve fs dest_folder base_name ext dest_path counter =
     (if path_exists fs dest_path
      then resolve fs dest_folder base_name ext
             (path_join dest_folder (base_name @ ''_'' @ str_nat counter @ ext)) (counter + 1)
      else dest_path)"
  by pat_completeness auto

section \<open>The organizing pipeline\<close>

text \<open>
  The statistics of a run: the dictionary \<open>results\<close>. An error entry is the pair of the
  file's path and the text of the exception (its time stamp is not modelled). The
  per-category counts are a dictionary in insertion order.
\<close>

record results =
  total_files :: nat
  processed_files :: nat
  errors :: "(string \<times> string) list"
  categories :: "(string \<times> nat) list"

text \<open>
  \<^verbatim>\<open>
  if category not in results['categories']:
      results['categories'][category] = 0
  results['categories'][category] += 1
  \<close>
  The key is in the dictionary when its count is read, so the \<open>None\<close> branch of the
  lookup, Python's \<open>KeyError\<close>, is never taken.
\<close>

definition count_category :: "string \<Rightarrow> (string \<times> nat) list \<Rightarrow> (string \<times> nat) list" where
  "count_category category cats =
     (let cats = (if category \<notin> fst ` set cats then AList.update category 0 cats else cats)
      in AList.update category (case map_of cats category of Some n \<Rightarrow> n + 1 | None \<Rightarrow> 0) cats)"

text \<open>
  The body of the \<open>try\<close> block for one file, up to the exit of the collision loop: the
  progress callback, the classification, the destination folder and its creation, the
  file name, and the destination path. The result is the file system as the block leaves
  it, and either the text of the exception that ended the block or the category and the
  destination path.
\<close>

definition choose_destination ::
  "env \<Rightarrow> string \<Rightarrow> bool \<Rightarrow> bool \<Rightarrow> nat \<Rightarrow> nat \<Rightarrow> string \<Rightarrow> fsys
    \<Rightarrow> fsys \<times> (string + string \<times> string)" where
  "choose_destination env output_folder organize_by_type add_metadata_to_filename n_files i
      file_path fs =
     (case (case e_progress env of
              None \<Rightarrow> None
            | Some progress_callback \<Rightarrow> progress_callback (i + 1) n_files (basename file_path)) of
        Some e \<Rightarrow> (fs, Inl e)
      | None \<Rightarrow>
         (case detect_file_type env file_path of
            (category, format_type, detection_method) \<Rightarrow>
              (let dest_folder =
                     (if organize_by_type then path_join output_folder category
                      else output_folder)
               in case makedirs env fs dest_folder of
                    (fs1, Some e) \<Rightarrow> (fs1, Inl e)
                  | (fs1, None) \<Rightarrow>
                     (let original_name = stem_of file_path;
                          original_extension = suffix_of file_path;
                          original_extension =
                            (if original_extension = [] then
                               (if format_type \<noteq> [] \<and> format_type \<noteq> ''unknown''
                                then ''.'' @ format_type else ''.unknown'')
                             else original_extension);
                          new_filename =
                            (if add_metadata_to_filename
                             then create_organized_filename env file_path category
                             else original_name @ original_extension);
                          dest_path = path_join dest_folder new_filename
                      in case splitext new_filename of
                           (base_name, ext) \<Rightarrow>
                             (fs1, Inr (category,
                                resolve fs1 dest_folder base_name ext dest_path 1))))))"

text \<open>The whole \<open>try\<close> block: the destination, then the copy.\<close>

definition try_file ::
  "env \<Rightarrow> string \<Rightarrow> bool \<Rightarrow> bool \<Rightarrow> nat \<Rightarrow> nat \<Rightarrow> string \<Rightarrow> fsys
    \<Rightarrow> fsys \<times> (string + string \<times> string)" where
  "try_file env output_folder organize_by_type add_metadata_to_filename n_files i file_path fs =
     (case choose_destination env output_folder organize_by_type add_metadata_to_filename
             n_files i file_path fs of
        (fs1, Inl e) \<Rightarrow> (fs1, Inl e)
      | (fs1, Inr (category, dest_path)) \<Rightarrow>
          (case copy2 env fs1 file_path dest_path of
             (fs2, Some e) \<Rightarrow> (fs2, Inl e)
           | (fs2, None) \<Rightarrow> (fs2, Inr (category, dest_path))))"

text \<open>
  One turn of the loop over the files: the statistics are updated after the copy, and the
  handler of \<open>except Exception\<close> appends the error.
\<close>

definition process_file ::
  "env \<Rightarrow> string \<Rightarrow> bool \<Rightarrow> bool \<Rightarrow> nat \<Rightarrow> nat \<Rightarrow> string \<Rightarrow> results \<times> fsys
    \<Rightarrow> results \<times> fsys" where
  "process_file env output_folder organize_by_type add_metadata_to_filename n_files i file_path st =
     (case st of (res, fs) \<Rightarrow>
        (case try_file env output_folder organize_by_type add_metadata_to_filename
                n_files i file_path fs of
           (fs', Inl e) \<Rightarrow> (res\<lparr>errors := errors res @ [(file_path, e)]\<rparr>, fs')
         | (fs', Inr (category, dest_path)) \<Rightarrow>
             (res\<lparr>categories := count_category category (categories res),
                  processed_files := processed_files res + 1\<rparr>, fs')))"

text \<open>\<open>for i, file_path in enumerate(files)\<close>.\<close>

fun process_loop ::
  "env \<Rightarrow> string \<Rightarrow> bool \<Rightarrow> bool \<Rightarrow> nat \<Rightarrow> nat \<Rightarrow> string list \<Rightarrow> results \<times> fsys
    \<Rightarrow> results \<times> fsys" where
  "process_loop env output_folder organize_by_type add_metadata_to_filename n_files i [] st = st"
| "process_loop env output_folder organize_by_type add_metadata_to_filename n_files i
      (file_path # files) st =
     process_loop env output_folder organize_by_type add_metadata_to_filename n_files (i + 1) files
       (process_file env output_folder organize_by_type add_metadata_to_filename n_files i
          file_path st)"

text \<open>
  \<open>FileProcessor.process_and_organize_files\<close> of \<open>main.py\<close>: it returns the statistics;
  the model returns the file system too. The function of \<open>Metadata2File.py\<close> has the
  same loop; it reports through a second callback inside the \<open>try\<close> block, which
  \<open>e_progress\<close> stands for as well, and counts the folders of the files in one more
  field that no later step reads.
\<close>

definition process_and_organize_files ::
  "env \<Rightarrow> string \<Rightarrow> string \<Rightarrow> bool \<Rightarrow> bool \<Rightarrow> fsys \<Rightarrow> results \<times> fsys" where
  "process_and_organize_files env input_folder output_folder organize_by_type
      add_metadata_to_filename fs =
     (let files = e_walk env input_folder;
          res = \<lparr>total_files = length files, processed_files = 0, errors = [], categories = []\<rparr>
      in process_loop env output_folder organize_by_type add_metadata_to_filename
           (length files) 0 files (res, fs))"

section \<open>The graphical front end\<close>

text \<open>
  The fields of \<open>FileOrganizerGUI\<close> the run depends on. \<open>processing\<close> is the flag that
  \<open>start_processing\<close> sets and \<open>stop_processing\<close> clears.
\<close>

record gui =
  input_folder :: string
  output_folder :: string
  organize_by_type :: bool
  add_metadata_to_filename :: bool
  processing :: bool

text \<open>
  \<open>FileOrganizerGUI.start_processing\<close>: an error dialog and return for an unset folder
  or an input folder that does not exist; then \<open>os.makedirs\<close> of the output folder, whose
  exception leaves the handler; then the flag is set and the worker thread is started. The
  result is the dialog, or the exception and the file system \<open>os.makedirs\<close> left, or
  the state in which the worker starts.
\<close>

datatype start_result =
    ErrorDialog string
  | Raised string fsys
  | WorkerStarted gui fsys

definition start_processing :: "env \<Rightarrow> gui \<Rightarrow> fsys \<Rightarrow> start_result" where
  "start_processing env g fs =
     (if input_folder g = [] then ErrorDialog ''Please select an input folder''
      else if output_folder g = [] then ErrorDialog ''Please select an output folder''
      else if \<not> path_exists fs (input_folder g) then ErrorDialog ''Input folder does not exist''
      else (case makedirs env fs (output_folder g) of
              (fs1, Some e) \<Rightarrow> Raised e fs1
            | (fs1, None) \<Rightarrow> WorkerStarted (g\<lparr>processing := True\<rparr>) fs1))"

text \<open>\<open>FileOrganizerGUI.stop_processing\<close>: the flag is cleared (and the log written).\<close>

definition stop_processing :: "gui \<Rightarrow> gui" where
  "stop_processing g = g\<lparr>processing := False\<rparr>"

text \<open>
  \<open>FileOrganizerGUI.process_files\<close>, the body of the worker thread: the run, on the
  folders and options of the front end, and \<open>processing = False\<close> in its \<open>finally\<close>.
\<close>

definition process_files :: "env \<Rightarrow> gui \<Rightarrow> fsys \<Rightarrow> gui \<times> results \<times> fsys" where
  "process_files env g fs =
     (case process_and_organize_files env (input_folder g) (output_folder g)
             (organize_by_type g) (add_metadata_to_filename g) fs of
        (res, fs') \<Rightarrow> (g\<lparr>processing := False\<rparr>, res, fs'))"

text \<open>
  The worker thread and the thread of the front end, interleaved at the file boundaries.
  The worker's state is the index of the next file, the files left and the state of the
  loop. \<open>WorkerStep\<close> is one turn of the worker's loop, \<open>StopPressed\<close> is a call of
  \<open>stop_processing\<close> between two turns. The loop of \<open>process_and_organize_files\<close> reads
  nothing of the front end, so a turn does not depend on the flag.
\<close>

datatype event = WorkerStep | StopPressed

type_synonym worker = "nat \<times> string list \<times> (results \<times> fsys)"

fun run_events :: "env \<Rightarrow> nat \<Rightarrow> event list \<Rightarrow> gui \<times> worker \<Rightarrow> gui \<times> worker" where
  "run_events env n_files [] s = s"
| "run_events env n_files (StopPressed # evs) (g, w) =
     run_events env n_files evs (stop_processing g, w)"
| "run_events env n_files (WorkerStep # evs) (g, (i, [], st)) =
     run_events env n_files evs (g, (i, [], st))"
| "run_events env n_files (WorkerStep # evs) (g, (i, file_path # files, st)) =
     run_events env n_files evs
       (g, (i + 1, files,
            process_file env (output_folder g) (organize_by_type g)
              (add_metadata_to_filename g) n_files i file_path st))"

text \<open>The state of the two threads when the worker enters its loop.\<close>

definition worker_start :: "env \<Rightarrow> gui \<Rightarrow> fsys \<Rightarrow> gui \<times> worker" where
  "worker_start env g fs =
     (let files = e_walk env (input_folder g)
      in (g, (0, files,
              (\<lparr>total_files = length files, processed_files = 0, errors = [], categories = []\<rparr>,
               fs))))"

section \<open>Concrete runs\<close>

text \<open>
  An environment whose file reads are \<open>rd\<close> and whose source tree holds the files
  \<open>fl\<close>; no decoding library can read anything, no directory creation or copy is
  refused, and there is no progress callback.
\<close>

definition plain_env :: "(string \<Rightarrow> string + string) \<Rightarrow> string list \<Rightarrow> env" where
  "plain_env rd fl =
     \<lparr> e_read = rd, e_image = (\<lambda>p. None), e_video = (\<lambda>p. None), e_audio = (\<lambda>p. None),
       e_pdf = (\<lambda>p. None), e_docx = (\<lambda>p. None), e_pptx = (\<lambda>p. None), e_txt = (\<lambda>p. None),
       e_mkdir_err = (\<lambda>d. None), e_copy_err = (\<lambda>src dst. None), e_progress = None,
       e_walk = (\<lambda>root. fl) \<rparr>"

text \<open>
  A source tree: a ZIP-based office file named \<open>notes.txt\<close>, a WAV file, a text file with
  an upper-case extension, two empty files, and a file that cannot be read.
\<close>

definition demo_read :: "string \<Rightarrow> string + string" where
  "demo_read p =
     (if p = ''/src/notes.txt'' then Inr (''PK'' @ [CHR 0x03, CHR 0x04] @ ''word/'')
      else if p = ''/src/song.wav'' then Inr ''RIFF$WAVEfmt ''
      else if p = ''/src/b.TXT'' then Inr ''hello''
      else if p = ''/src/empty.txt'' \<or> p = ''/src/blank'' then Inr []
      else Inl ''[Errno 13] Permission denied'')"

definition demo_env :: env where
  "demo_env = plain_env demo_read
     [''/src/notes.txt'', ''/src/song.wav'', ''/src/b.TXT'', ''/src/empty.txt'', ''/src/blank'',
      ''/src/locked'']"


text \<open>The destination side before a run: no file yet, the two root folders exist.\<close>

definition dest_fs :: fsys where
  "dest_fs = \<lparr>fs_files = [], fs_dirs = [''/src'', ''/out'']\<rparr>"

text \<open>Two empty files of the same name in two folders of the source tree.\<close>

definition twin_env :: env where
  "twin_env = plain_env (\<lambda>p. Inr []) [''/src/a/x.png'', ''/src/b/x.png'']"

definition twin_gui :: gui where
  "twin_gui = \<lparr>input_folder = ''/src'', output_folder = ''/out'', organize_by_type = True,
                add_metadata_to_filename = False, processing = True\<rparr>"

text \<open>Two files of the same name that cannot be read.\<close>

definition locked_env :: env where
  "locked_env = plain_env (\<lambda>p. Inl ''[Errno 13] Permission denied'')
     [''/src/a/x.txt'', ''/src/b/x.txt'']"

text \<open>A file with the PDF magic bytes that PyPDF2 cannot parse.\<close>

definition pdf_env :: env where
  "pdf_env = plain_env (\<lambda>p. Inr ''%PDF-1.4'') [''/src/broken.pdf'']"

text \<open>
  A source root in which \<open>os.walk\<close> finds nothing, because it does not exist or because
  it cannot be read; and a destination that cannot be created.
\<close>

definition missing_env :: env where
  "missing_env = plain_env (\<lambda>p. Inl ''[Errno 2] No such file or directory'') []"

definition readonly_env :: env where
  "readonly_env = twin_env\<lparr>e_mkdir_err := (\<lambda>d. Some (''[Errno 13] Permission denied'', 0))\<rparr>"

text \<open>
  Two files of the same name, and a disk that is full after three bytes of the first copy:
  \<open>shutil.copy2\<close> raises and leaves the bytes it wrote.
\<close>

definition diskfull_env :: env where
  "diskfull_env =
     (plain_env (\<lambda>p. Inr ''abcdef'') [''/src/a/x.png'', ''/src/b/x.png''])
       \<lparr>e_copy_err := (\<lambda>src dst. if src = ''/src/a/x.png''
                             then Some (''[Errno 28] No space left on device'', Some ''abc'')
                             else None)\<rparr>"

definition bare_fs :: fsys where
  "bare_fs = \<lparr>fs_files = [], fs_dirs = [''/src'']\<rparr>"

text \<open>
  The destination that cannot be created, with a progress callback that returns, as the
  front end passes one to every run.
\<close>

definition reporting_env :: env where
  "reporting_env = readonly_env\<lparr>e_progress := Some (\<lambda>current n_files filename. None)\<rparr>"

section \<open>Termination of the collision loop\<close>

declare str_nat.simps [simp del]

lemma of_char_digit_char: "d < 10 \<Longrightarrow> of_char (digit_char d) = (48 + d :: nat)"
  by (simp add: digit_char_def)

lemma nat_of_digits_str_nat: "nat_of_digits (str_nat n) = n"
proof (induction n rule: str_nat.induct)
  case (1 n)
  show ?case
  proof (cases "n < 10")
    case True
    then show ?thesis
      by (subst str_nat.simps) (simp add: nat_of_digits_def of_char_digit_char)
  next
    case False
    have "nat_of_digits (str_nat n) = 10 * nat_of_digits (str_nat (n div 10)) + n mod 10"
      using False
      by (subst str_nat.simps) (simp add: nat_of_digits_def of_char_digit_char)
    with 1 False show ?thesis by simp
  qed
qed

lemma str_nat_inj: "str_nat m = str_nat n \<Longrightarrow> m = n"
  by (metis nat_of_digits_str_nat)

lemma path_join_inj: "path_join a (b @ ''_'' @ x) = path_join a (b @ ''_'' @ y) \<Longrightarrow> x = y"
  by (cases b) (auto simp: path_join_def split: if_splits)

lemma numbered_inj: "numbered d b e m = numbered d b e n \<Longrightarrow> m = n"
proof -
  assume "numbered d b e m = numbered d b e n"
  then have "str_nat m @ e = str_nat n @ e"
    unfolding numbered_def by (rule path_join_inj)
  then show "m = n"
    by (simp add: str_nat_inj)
qed

lemma finite_existing: "finite {p. path_exists fs p}"
proof -
  have "{p. path_exists fs p} = fst ` set (fs_files fs) \<union> set (fs_dirs fs)"
    by (auto simp: path_exists_def)
  then show ?thesis by simp
qed

lemma finite_taken: "finite {k. c \<le> k \<and> path_exists fs (numbered d b e k)}"
proof -
  have "inj (numbered d b e)"
    by (rule injI) (rule numbered_inj)
  then have "finite (numbered d b e -` {p. path_exists fs p})"
    by (intro finite_vimageI finite_existing)
  moreover have "{k. c \<le> k \<and> path_exists fs (numbered d b e k)}
      \<subseteq> numbered d b e -` {p. path_exists fs p}"
    by auto
  ultimately show ?thesis by (rule rev_finite_subset)
qed

lemma taken_step:
  "taken fs d b e (Suc c) + (if path_exists fs (numbered d b e c) then 1 else 0) = taken fs d b e c"
proof -
  let ?S = "\<lambda>c. {k. c \<le> k \<and> path_exists fs (numbered d b e k)}"
  show ?thesis
  proof (cases "path_exists fs (numbered d b e c)")
    case True
    then have "?S c = insert c (?S (Suc c))"
      by (auto simp: Suc_le_eq le_less)
    moreover have "c \<notin> ?S (Suc c)" by simp
    ultimately have "card (?S c) = Suc (card (?S (Suc c)))"
      using finite_taken [of "Suc c" fs d b e] by simp
    with True show ?thesis by (simp add: taken_def)
  next
    case False
    then have "?S c = ?S (Suc c)"
      by (auto simp: Suc_le_eq le_less)
    with False show ?thesis by (simp add: taken_def)
  qed
qed

termination resolve
proof (relation "measure (\<lambda>(fs, d, b, e, p, c).
    taken fs d b e c + (if path_exists fs p then 1 else 0))")
  show "wf (measure (\<lambda>(fs, d, b, e, p, c).
    taken fs d b e c + (if path_exists fs p then 1 else 0)))"
    by simp
next
  fix fs :: fsys and dest_folder base_name ext dest_path :: string and counter :: nat
  assume "path_exists fs dest_path"
  then show "((fs, dest_folder, base_name, ext,
        path_join dest_folder (base_name @ ''_'' @ str_nat counter @ ext), counter + 1),
       (fs, dest_folder, base_name, ext, dest_path, counter))
      \<in> measure (\<lambda>(fs, d, b, e, p, c). taken fs d b e c + (if path_exists fs p then 1 else 0))"
    using taken_step [of fs dest_folder base_name ext counter]
    by (simp add: numbered_def)
qed

declare resolve.simps [simp del]

section \<open>Properties of the classifier\<close>

lemma match_signature_first:
  "i < length tbl \<Longrightarrow> tbl ! i = (sig, cat, fmt) \<Longrightarrow> prefix sig h \<Longrightarrow>
   \<forall>e \<in> set (take i tbl). \<not> prefix (fst e) h \<Longrightarrow>
   match_signature tbl h = Some (cat, fmt)"
proof (induction tbl arbitrary: i)
  case Nil
  then show ?case by simp
next
  case (Cons a tbl)
  obtain s c f where a: "a = (s, c, f)" by (cases a)
  show ?case
  proof (cases i)
    case 0
    with Cons.prems a show ?thesis by simp
  next
    case (Suc k)
    with Cons.prems a have "\<not> prefix s h" by auto
    moreover have "match_signature tbl h = Some (cat, fmt)"
      using Cons.prems Suc by (intro Cons.IH [of k]) auto
    ultimately show ?thesis using a by simp
  qed
qed

lemma match_signature_None:
  "match_signature tbl h = None \<longleftrightarrow> (\<forall>e \<in> set tbl. \<not> prefix (fst e) h)"
  by (induction tbl h rule: match_signature.induct) auto

lemma prefix_take_iff: "length s \<le> n \<Longrightarrow> prefix s (take n c) \<longleftrightarrow> prefix s c"
proof
  assume "prefix s (take n c)"
  then show "prefix s c"
    using take_is_prefix prefix_order.trans by blast
next
  assume len: "length s \<le> n" and "prefix s c"
  then obtain t where "c = s @ t" by (auto simp: prefix_def)
  with len show "prefix s (take n c)" by simp
qed

lemma signatures_short_all: "list_all (\<lambda>e. length (fst e) \<le> 32) signatures"
  by (simp add: signatures_def)

lemma header_prefix:
  assumes "e \<in> set signatures"
  shows "prefix (fst e) (take 32 content) \<longleftrightarrow> prefix (fst e) content"
proof -
  from assms signatures_short_all have "length (fst e) \<le> 32"
    by (simp add: list_all_iff)
  then show ?thesis by (rule prefix_take_iff)
qed

lemma detect_magic:
  assumes "e_read env p = Inr content"
    and "i < length signatures" and "signatures ! i = (sig, cat, fmt)"
    and "prefix sig content"
    and "\<forall>e \<in> set (take i signatures). \<not> prefix (fst e) content"
  shows "detect_file_type env p = (cat, fmt, ''magic_bytes'')"
proof -
  have "(sig, cat, fmt) \<in> set signatures"
    using assms(2,3) nth_mem by fastforce
  then have "prefix sig (take 32 content)"
    using header_prefix [of "(sig, cat, fmt)" content] assms(4) by simp
  moreover have "\<forall>e \<in> set (take i signatures). \<not> prefix (fst e) (take 32 content)"
    using assms(5) header_prefix by (meson in_set_takeD)
  ultimately have "match_signature signatures (take 32 content) = Some (cat, fmt)"
    using assms(2,3) by (intro match_signature_first)
  with assms(1) show ?thesis
    by (simp add: detect_file_type_def)
qed

lemma match_extension_unique:
  "distinct (concat (map snd tbl)) \<Longrightarrow> (c, exts) \<in> set tbl \<Longrightarrow> x \<in> set exts \<Longrightarrow>
   match_extension tbl x = Some c"
proof (induction tbl)
  case Nil
  then show ?case by simp
next
  case (Cons a tbl)
  obtain c' exts' where a: "a = (c', exts')" by (cases a)
  show ?case
  proof (cases "x \<in> set exts'")
    case True
    have "(c, exts) \<notin> set tbl"
    proof
      assume "(c, exts) \<in> set tbl"
      with Cons.prems(3) have "x \<in> set (concat (map snd tbl))" by force
      with True Cons.prems(1) a show False by auto
    qed
    with Cons.prems(2) a have "c' = c" by simp
    with True a show ?thesis by simp
  next
    case False
    with Cons.prems a have "(c, exts) \<in> set tbl" by auto
    with Cons False a show ?thesis by simp
  qed
qed

lemma match_extension_None:
  "match_extension tbl x = None \<longleftrightarrow> (\<forall>e \<in> set tbl. x \<notin> set (snd e))"
  by (induction tbl x rule: match_extension.induct) auto

lemma extensions_distinct: "distinct (concat (map snd SUPPORTED_FORMATS))"
  by (simp add: SUPPORTED_FORMATS_def)

lemma extensions_dotted:
  "list_all (\<lambda>e. list_all (\<lambda>x. x \<noteq> [] \<and> hd x = CHR ''.'') (snd e)) SUPPORTED_FORMATS"
  by (simp add: SUPPORTED_FORMATS_def)

lemma detect_no_magic:
  assumes "e_read env p = Inr content"
    and "\<forall>e \<in> set signatures. \<not> prefix (fst e) content"
  shows "detect_file_type env p =
          (case match_extension SUPPORTED_FORMATS (lower (suffix_of p)) of
             Some category \<Rightarrow> (category, drop 1 (lower (suffix_of p)), ''file_extension'')
           | None \<Rightarrow> (''Other'', ''unknown'', ''unknown''))"
proof -
  have "\<forall>e \<in> set signatures. \<not> prefix (fst e) (take 32 content)"
    using assms(2) header_prefix by blast
  then have "match_signature signatures (take 32 content) = None"
    by (simp add: match_signature_None)
  with assms(1) show ?thesis
    by (simp add: detect_file_type_def Let_def)
qed

lemma detect_by_extension:
  assumes "e_read env p = Inr content"
    and "\<forall>e \<in> set signatures. \<not> prefix (fst e) content"
    and "(category, extensions) \<in> set SUPPORTED_FORMATS"
    and "lower (suffix_of p) \<in> set extensions"
  shows "detect_file_type env p = (category, drop 1 (lower (suffix_of p)), ''file_extension'')"
proof -
  have "match_extension SUPPORTED_FORMATS (lower (suffix_of p)) = Some category"
    using extensions_distinct assms(3,4) by (rule match_extension_unique)
  with detect_no_magic [OF assms(1,2)] show ?thesis by simp
qed

lemma no_signature_empty: "\<forall>e \<in> set signatures. \<not> prefix (fst e) []"
  by (simp add: signatures_def)

section \<open>Properties of the statistics\<close>

lemma update_absent: "k \<notin> fst ` set xs \<Longrightarrow> AList.update k v xs = xs @ [(k, v)]"
  by (induction xs) auto

lemma sum_update:
  "distinct (map fst xs) \<Longrightarrow>
   sum_list (map snd (AList.update k v xs)) + (case map_of xs k of Some n \<Rightarrow> n | None \<Rightarrow> 0)
     = sum_list (map snd xs) + (v::nat)"
proof (induction xs)
  case Nil
  then show ?case by simp
next
  case (Cons a xs)
  obtain k' n' where a: "a = (k', n')" by (cases a)
  show ?case
  proof (cases "k' = k")
    case True
    with Cons.prems a show ?thesis by simp
  next
    case False
    with Cons a show ?thesis by simp
  qed
qed

lemma count_category_distinct:
  "distinct (map fst cats) \<Longrightarrow> distinct (map fst (count_category c cats))"
  by (simp add: count_category_def Let_def distinct_update)

lemma count_category_new:
  assumes "map_of cats c = None"
  shows "count_category c cats = cats @ [(c, 1)]"
proof -
  from assms have nin: "c \<notin> fst ` set cats" by (simp add: map_of_eq_None_iff)
  have "map_of (AList.update c 0 cats) c = Some (0::nat)"
    by (simp add: update_conv')
  with nin have "count_category c cats = AList.update c 1 (AList.update c 0 cats)"
    by (simp add: count_category_def)
  also have "\<dots> = AList.update c 1 cats" by simp
  also have "\<dots> = cats @ [(c, 1)]" using nin by (rule update_absent)
  finally show ?thesis .
qed

lemma count_category_old:
  assumes "map_of cats c = Some n"
  shows "count_category c cats = AList.update c (n + 1) cats"
proof -
  from assms have "c \<in> fst ` set cats"
    using map_of_eq_None_iff [of cats c] by auto
  with assms show ?thesis by (simp add: count_category_def)
qed

lemma count_category_sum:
  assumes "distinct (map fst cats)"
  shows "sum_list (map snd (count_category c cats)) = sum_list (map snd cats) + 1"
proof (cases "map_of cats c")
  case None
  then show ?thesis by (simp add: count_category_new)
next
  case (Some n)
  with sum_update [OF assms, of c "n + 1"] show ?thesis
    by (simp add: count_category_old)
qed

lemma count_category_present: "map_of (count_category c cats) c \<noteq> None"
  by (simp add: count_category_def Let_def update_conv')

section \<open>Properties of the file system steps\<close>

lemma makedirs_files: "fs_files (fst (makedirs env fs d)) = fs_files fs"
  by (simp add: makedirs_def Let_def split: option.splits prod.splits)

lemma makedirs_exists: "path_exists fs p \<Longrightarrow> path_exists (fst (makedirs env fs d)) p"
  by (auto simp: makedirs_def Let_def path_exists_def split: option.splits prod.splits)

lemma makedirs_creates:
  assumes "snd (makedirs env fs d) = None"
  shows "path_exists (fst (makedirs env fs d)) d"
proof (cases "d \<in> set (fs_dirs fs)")
  case True
  then show ?thesis by (simp add: makedirs_def path_exists_def)
next
  case False
  with assms have nf: "d \<notin> fst ` set (fs_files fs)"
    by (auto simp: makedirs_def split: if_splits)
  with False have "\<not> path_exists fs d" by (simp add: path_exists_def)
  then have "d \<in> set (filter (\<lambda>a. \<not> path_exists fs a) (dir_chain d))"
    by (simp add: dir_chain_def)
  with assms False nf show ?thesis
    by (auto simp: makedirs_def Let_def path_exists_def split: option.splits prod.splits)
qed

lemma resolve_free: "\<not> path_exists fs (resolve fs d b e p c)"
  by (induction fs d b e p c rule: resolve.induct) (subst resolve.simps, simp)

lemma resolve_shape:
  "resolve fs d b e p c = p \<and> \<not> path_exists fs p
   \<or> path_exists fs p \<and>
     (\<exists>n\<ge>c. resolve fs d b e p c = numbered d b e n \<and>
        (\<forall>k. c \<le> k \<and> k < n \<longrightarrow> path_exists fs (numbered d b e k)))"
proof (induction fs d b e p c rule: resolve.induct)
  case (1 fs d b e p c)
  show ?case
  proof (cases "path_exists fs p")
    case False
    then show ?thesis by (subst resolve.simps) simp
  next
    case True
    let ?q = "numbered d b e c"
    have unf: "resolve fs d b e p c = resolve fs d b e ?q (c + 1)"
      using True by (subst resolve.simps) (simp add: numbered_def)
    from 1 [OF True] have IH:
      "resolve fs d b e ?q (c + 1) = ?q \<and> \<not> path_exists fs ?q
       \<or> path_exists fs ?q \<and>
         (\<exists>n\<ge>c + 1. resolve fs d b e ?q (c + 1) = numbered d b e n \<and>
            (\<forall>k. c + 1 \<le> k \<and> k < n \<longrightarrow> path_exists fs (numbered d b e k)))"
      by (simp add: numbered_def)
    then show ?thesis
    proof
      assume "resolve fs d b e ?q (c + 1) = ?q \<and> \<not> path_exists fs ?q"
      with unf True show ?thesis by auto
    next
      assume a: "path_exists fs ?q \<and>
         (\<exists>n\<ge>c + 1. resolve fs d b e ?q (c + 1) = numbered d b e n \<and>
            (\<forall>k. c + 1 \<le> k \<and> k < n \<longrightarrow> path_exists fs (numbered d b e k)))"
      then obtain n where n: "c + 1 \<le> n" "resolve fs d b e ?q (c + 1) = numbered d b e n"
        "\<forall>k. c + 1 \<le> k \<and> k < n \<longrightarrow> path_exists fs (numbered d b e k)" by blast
      have "\<forall>k. c \<le> k \<and> k < n \<longrightarrow> path_exists fs (numbered d b e k)"
      proof (intro allI impI)
        fix k assume "c \<le> k \<and> k < n"
        then consider "k = c" | "c + 1 \<le> k \<and> k < n" by linarith
        then show "path_exists fs (numbered d b e k)"
          using a n(3) by cases auto
      qed
      with n unf True show ?thesis
        by (intro disjI2 conjI exI [of _ n]) auto
    qed
  qed
qed

lemma copy2_new:
  assumes "\<not> path_exists fs dst" and "copy2 env fs src dst = (fs', r)"
  shows "fs_dirs fs' = fs_dirs fs \<and>
         (r \<noteq> None \<and> fs_files fs' = fs_files fs
          \<or> (\<exists>c. fs_files fs' = fs_files fs @ [(dst, c)] \<and>
                (r = None \<longrightarrow> e_read env src = Inr c)))"
proof -
  from assms(1) have nd: "dst \<notin> set (fs_dirs fs)" and nf: "dst \<notin> fst ` set (fs_files fs)"
    by (auto simp: path_exists_def)
  have app: "\<And>c. AList.update dst c (fs_files fs) = fs_files fs @ [(dst, c)]"
    using nf by (rule update_absent)
  from assms(2) nd show ?thesis
    by (auto simp: copy2_def app split: sum.splits option.splits prod.splits)
qed

lemma choose_destination_cases:
  assumes "choose_destination env out org meta n i p fs = (fs1, r)"
  shows "fs_files fs1 = fs_files fs \<and> (\<forall>q. path_exists fs q \<longrightarrow> path_exists fs1 q) \<and>
         ((\<exists>e. r = Inl e)
          \<or> (\<exists>dest. r = Inr (fst (detect_file_type env p), dest) \<and> \<not> path_exists fs1 dest))"
proof (cases "case e_progress env of None \<Rightarrow> None
              | Some progress_callback \<Rightarrow> progress_callback (i + 1) n (basename p)")
  case (Some e)
  with assms show ?thesis by (auto simp: choose_destination_def)
next
  case None
  obtain category format_type how where d: "detect_file_type env p = (category, format_type, how)"
    by (cases "detect_file_type env p")
  let ?folder = "if org then path_join out category else out"
  obtain fsm rm where m: "makedirs env fs ?folder = (fsm, rm)"
    by (cases "makedirs env fs ?folder")
  have fm: "fs_files fsm = fs_files fs" "\<forall>q. path_exists fs q \<longrightarrow> path_exists fsm q"
    using makedirs_files [of env fs ?folder] makedirs_exists [of fs _ env ?folder] m by auto
  show ?thesis
  proof (cases rm)
    case (Some e)
    with assms None d m fm show ?thesis
      by (auto simp: choose_destination_def Let_def)
  next
    case rn: None
    with assms None d m fm show ?thesis
      by (auto simp: choose_destination_def Let_def resolve_free split: prod.splits)
  qed
qed

lemma try_file_cases:
  assumes "try_file env out org meta n i p fs = (fs', r)"
  shows "(\<forall>q. path_exists fs q \<longrightarrow> path_exists fs' q) \<and>
         ((\<exists>e. r = Inl e) \<and>
            (fs_files fs' = fs_files fs
             \<or> (\<exists>dest c. \<not> path_exists fs dest \<and> fs_files fs' = fs_files fs @ [(dest, c)]))
          \<or> (\<exists>dest content. r = Inr (fst (detect_file_type env p), dest) \<and>
                \<not> path_exists fs dest \<and> e_read env p = Inr content \<and>
                fs_files fs' = fs_files fs @ [(dest, content)]))"
proof -
  obtain fs1 r1 where cd: "choose_destination env out org meta n i p fs = (fs1, r1)"
    by (cases "choose_destination env out org meta n i p fs")
  from choose_destination_cases [OF cd]
  have f1: "fs_files fs1 = fs_files fs" and m1: "\<forall>q. path_exists fs q \<longrightarrow> path_exists fs1 q"
    and alt: "(\<exists>e. r1 = Inl e)
          \<or> (\<exists>dest. r1 = Inr (fst (detect_file_type env p), dest) \<and> \<not> path_exists fs1 dest)"
    by auto
  from alt show ?thesis
  proof
    assume "\<exists>e. r1 = Inl e"
    with cd assms f1 m1 show ?thesis by (auto simp: try_file_def)
  next
    assume "\<exists>dest. r1 = Inr (fst (detect_file_type env p), dest) \<and> \<not> path_exists fs1 dest"
    then obtain dest where d: "r1 = Inr (fst (detect_file_type env p), dest)"
      "\<not> path_exists fs1 dest" by blast
    obtain fs2 rc where c2: "copy2 env fs1 p dest = (fs2, rc)"
      by (cases "copy2 env fs1 p dest")
    from copy2_new [OF d(2) c2]
    have dirs: "fs_dirs fs2 = fs_dirs fs1"
      and files: "rc \<noteq> None \<and> fs_files fs2 = fs_files fs1
          \<or> (\<exists>c. fs_files fs2 = fs_files fs1 @ [(dest, c)] \<and>
                (rc = None \<longrightarrow> e_read env p = Inr c))"
      by auto
    have m2: "\<forall>q. path_exists fs1 q \<longrightarrow> path_exists fs2 q"
      using dirs files by (auto simp: path_exists_def)
    from d(2) m1 have free: "\<not> path_exists fs dest" by blast
    from cd d c2 assms have fs': "fs' = fs2"
      and r: "r = (case rc of Some e \<Rightarrow> Inl e | None \<Rightarrow> Inr (fst (detect_file_type env p), dest))"
      by (auto simp: try_file_def split: option.splits)
    show ?thesis
    proof (cases rc)
      case None
      with files obtain c where "fs_files fs2 = fs_files fs1 @ [(dest, c)]" "e_read env p = Inr c"
        by auto
      with None r fs' f1 m1 m2 free show ?thesis by auto
    next
      case (Some e)
      with files r fs' f1 m1 m2 free show ?thesis by auto
    qed
  qed
qed

section \<open>Properties of the loop over the files\<close>

lemma process_file_cases:
  assumes "process_file env out org meta n i p (res, fs) = (res', fs')"
  shows "(\<forall>q. path_exists fs q \<longrightarrow> path_exists fs' q) \<and>
         ((\<exists>e. res' = res\<lparr>errors := errors res @ [(p, e)]\<rparr>) \<and>
            (fs_files fs' = fs_files fs
             \<or> (\<exists>dest c. \<not> path_exists fs dest \<and> fs_files fs' = fs_files fs @ [(dest, c)]))
          \<or> res' = res\<lparr>categories := count_category (fst (detect_file_type env p)) (categories res),
                        processed_files := processed_files res + 1\<rparr> \<and>
            (\<exists>dest content. \<not> path_exists fs dest \<and> e_read env p = Inr content \<and>
               fs_files fs' = fs_files fs @ [(dest, content)]))"
proof -
  obtain fs1 r where tf: "try_file env out org meta n i p fs = (fs1, r)"
    by (cases "try_file env out org meta n i p fs")
  from try_file_cases [OF tf]
  have mono: "\<forall>q. path_exists fs q \<longrightarrow> path_exists fs1 q"
    and alt: "(\<exists>e. r = Inl e) \<and>
            (fs_files fs1 = fs_files fs
             \<or> (\<exists>dest c. \<not> path_exists fs dest \<and> fs_files fs1 = fs_files fs @ [(dest, c)]))
          \<or> (\<exists>dest content. r = Inr (fst (detect_file_type env p), dest) \<and>
                \<not> path_exists fs dest \<and> e_read env p = Inr content \<and>
                fs_files fs1 = fs_files fs @ [(dest, content)])"
    by auto
  from alt show ?thesis
  proof
    assume a: "(\<exists>e. r = Inl e) \<and>
            (fs_files fs1 = fs_files fs
             \<or> (\<exists>dest c. \<not> path_exists fs dest \<and> fs_files fs1 = fs_files fs @ [(dest, c)]))"
    then obtain e where "r = Inl e" by blast
    with tf assms have "fs' = fs1" "res' = res\<lparr>errors := errors res @ [(p, e)]\<rparr>"
      by (auto simp: process_file_def)
    with a mono show ?thesis by blast
  next
    assume "\<exists>dest content. r = Inr (fst (detect_file_type env p), dest) \<and>
                \<not> path_exists fs dest \<and> e_read env p = Inr content \<and>
                fs_files fs1 = fs_files fs @ [(dest, content)]"
    then obtain dest content where d: "r = Inr (fst (detect_file_type env p), dest)"
      "\<not> path_exists fs dest" "e_read env p = Inr content"
      "fs_files fs1 = fs_files fs @ [(dest, content)]"
      by blast
    from tf d(1) assms have "fs' = fs1"
      "res' = res\<lparr>categories := count_category (fst (detect_file_type env p)) (categories res),
                    processed_files := processed_files res + 1\<rparr>"
      by (auto simp: process_file_def)
    with d mono show ?thesis by blast
  qed
qed

text \<open>The accounting of the statistics, kept by every turn of the loop.\<close>

lemma process_file_accounting:
  assumes "process_file env out org meta n i p (res, fs) = (res', fs')"
    and "distinct (map fst (categories res))"
    and "processed_files res = sum_list (map snd (categories res))"
  shows "distinct (map fst (categories res')) \<and>
         processed_files res' = sum_list (map snd (categories res')) \<and>
         processed_files res' + length (errors res') = processed_files res + length (errors res) + 1 \<and>
         total_files res' = total_files res"
  using process_file_cases [OF assms(1)] assms(2,3)
  by (auto simp: count_category_distinct count_category_sum)

lemma process_loop_accounting:
  assumes "process_loop env out org meta n i files (res, fs) = (res', fs')"
    and "distinct (map fst (categories res))"
    and "processed_files res = sum_list (map snd (categories res))"
  shows "distinct (map fst (categories res')) \<and>
         processed_files res' = sum_list (map snd (categories res')) \<and>
         processed_files res' + length (errors res')
           = processed_files res + length (errors res) + length files \<and>
         total_files res' = total_files res"
  using assms
proof (induction files arbitrary: i res fs)
  case Nil
  then show ?case by simp
next
  case (Cons p files)
  obtain res1 fs1 where step: "process_file env out org meta n i p (res, fs) = (res1, fs1)"
    by (cases "process_file env out org meta n i p (res, fs)")
  from process_file_accounting [OF step Cons.prems(2,3)]
  have a: "distinct (map fst (categories res1))"
    "processed_files res1 = sum_list (map snd (categories res1))"
    "processed_files res1 + length (errors res1) = processed_files res + length (errors res) + 1"
    "total_files res1 = total_files res"
    by simp_all
  from Cons.prems(1) step
  have "process_loop env out org meta n (i + 1) files (res1, fs1) = (res', fs')" by simp
  from Cons.IH [OF this a(1,2)] a(3,4) show ?case by simp
qed

text \<open>
  The files of the file system, as the loop extends them: one new file for each processed
  file, and at most one for each error (what a copy that failed part-way left behind).
\<close>

lemma process_file_files:
  assumes "process_file env out org meta n i p (res, fs) = (res', fs')"
  shows "\<exists>new. fs_files fs' = fs_files fs @ new \<and> length new \<le> 1 \<and>
           processed_files res' \<le> processed_files res + length new \<and>
           processed_files res + length (errors res) + length new
             \<le> processed_files res' + length (errors res') \<and>
           (\<forall>q \<in> fst ` set new. \<not> path_exists fs q) \<and>
           (\<forall>q. path_exists fs q \<longrightarrow> path_exists fs' q)"
proof -
  from process_file_cases [OF assms]
  have mono: "\<forall>q. path_exists fs q \<longrightarrow> path_exists fs' q"
    and alt: "(\<exists>e. res' = res\<lparr>errors := errors res @ [(p, e)]\<rparr>) \<and>
            (fs_files fs' = fs_files fs
             \<or> (\<exists>dest c. \<not> path_exists fs dest \<and> fs_files fs' = fs_files fs @ [(dest, c)]))
          \<or> res' = res\<lparr>categories := count_category (fst (detect_file_type env p)) (categories res),
                        processed_files := processed_files res + 1\<rparr> \<and>
            (\<exists>dest content. \<not> path_exists fs dest \<and> e_read env p = Inr content \<and>
               fs_files fs' = fs_files fs @ [(dest, content)])"
    by auto
  from alt consider
      (err0) e where "res' = res\<lparr>errors := errors res @ [(p, e)]\<rparr>" "fs_files fs' = fs_files fs"
    | (err1) e dest c where "res' = res\<lparr>errors := errors res @ [(p, e)]\<rparr>"
        "\<not> path_exists fs dest" "fs_files fs' = fs_files fs @ [(dest, c)]"
    | (ok) dest c where
        "res' = res\<lparr>categories := count_category (fst (detect_file_type env p)) (categories res),
                        processed_files := processed_files res + 1\<rparr>"
        "\<not> path_exists fs dest" "fs_files fs' = fs_files fs @ [(dest, c)]"
    by blast
  then show ?thesis
  proof cases
    case err0
    with mono show ?thesis by (intro exI [of _ "[]"]) simp
  next
    case err1
    with mono show ?thesis by (intro exI [of _ "[(dest, c)]"]) simp
  next
    case ok
    with mono show ?thesis by (intro exI [of _ "[(dest, c)]"]) simp
  qed
qed

lemma process_loop_files:
  assumes "process_loop env out org meta n i files (res, fs) = (res', fs')"
  shows "\<exists>new. fs_files fs' = fs_files fs @ new \<and>
           processed_files res' \<le> processed_files res + length new \<and>
           processed_files res + length (errors res) + length new
             \<le> processed_files res' + length (errors res') \<and>
           distinct (map fst new) \<and>
           (\<forall>q \<in> fst ` set new. \<not> path_exists fs q) \<and>
           (\<forall>q. path_exists fs q \<longrightarrow> path_exists fs' q)"
  using assms
proof (induction files arbitrary: i res fs)
  case Nil
  then show ?case by simp
next
  case (Cons p files)
  obtain res1 fs1 where step: "process_file env out org meta n i p (res, fs) = (res1, fs1)"
    by (cases "process_file env out org meta n i p (res, fs)")
  from Cons.prems step
  have rest: "process_loop env out org meta n (i + 1) files (res1, fs1) = (res', fs')" by simp
  from process_file_files [OF step] obtain new1 where n1:
    "fs_files fs1 = fs_files fs @ new1" "length new1 \<le> 1"
    "processed_files res1 \<le> processed_files res + length new1"
    "processed_files res + length (errors res) + length new1
       \<le> processed_files res1 + length (errors res1)"
    "\<forall>q \<in> fst ` set new1. \<not> path_exists fs q"
    "\<forall>q. path_exists fs q \<longrightarrow> path_exists fs1 q"
    by blast
  from Cons.IH [OF rest] obtain new2 where n2:
    "fs_files fs' = fs_files fs1 @ new2"
    "processed_files res' \<le> processed_files res1 + length new2"
    "processed_files res1 + length (errors res1) + length new2
       \<le> processed_files res' + length (errors res')"
    "distinct (map fst new2)"
    "\<forall>q \<in> fst ` set new2. \<not> path_exists fs1 q"
    "\<forall>q. path_exists fs1 q \<longrightarrow> path_exists fs' q"
    by blast
  have ex1: "\<forall>q \<in> fst ` set new1. path_exists fs1 q"
    using n1(1) by (auto simp: path_exists_def)
  have d1: "distinct (map fst new1)"
    using n1(2) by (cases new1) auto
  have disj: "fst ` set new1 \<inter> fst ` set new2 = {}"
    using ex1 n2(5) by blast
  have dis: "distinct (map fst (new1 @ new2))"
    using d1 n2(4) disj by simp
  have fresh: "\<forall>q \<in> fst ` set (new1 @ new2). \<not> path_exists fs q"
    using n1(5,6) n2(5) by auto
  show ?case
    using n1(1,3,4,6) n2(1,2,3,6) dis fresh
    by (intro exI [of _ "new1 @ new2"]) simp
qed

section \<open>Properties of the file names\<close>

lemma create_organized_filename_eq:
  "create_organized_filename env p category =
     (let info =
            (if category = ''Images'' then get_image_info env p
             else if category = ''Videos'' then get_video_info env p
             else if category = ''Audio'' then get_audio_info env p
             else if category = ''Documents'' then get_document_info env p
             else [])
      in if info \<noteq> [] \<and> info \<noteq> ''unknown''
         then stem_of p @ ''_'' @ info @ ensured_extension env p
         else stem_of p @ ensured_extension env p)"
  by (simp add: create_organized_filename_def ensured_extension_def Let_def)

lemma get_document_info_failed:
  assumes "e_pdf env p = None" "e_docx env p = None" "e_pptx env p = None" "e_txt env p = None"
  shows "get_document_info env p = ''document''"
  using assms by (simp add: get_document_info_def Let_def)

lemma failed_probe_tokens:
  "(e_image env p = None \<longrightarrow>
      get_image_info env p = ''unknown'' \<and>
      create_organized_filename env p ''Images'' = stem_of p @ ensured_extension env p)
   \<and> ((e_video env p = None \<or> e_video env p = Some None) \<longrightarrow>
      get_video_info env p = ''unknown'' \<and>
      create_organized_filename env p ''Videos'' = stem_of p @ ensured_extension env p)
   \<and> ((e_audio env p = None \<or> e_audio env p = Some None) \<longrightarrow>
      get_audio_info env p = ''unknown'' \<and>
      create_organized_filename env p ''Audio'' = stem_of p @ ensured_extension env p)
   \<and> (e_pdf env p = None \<and> e_docx env p = None \<and> e_pptx env p = None \<and> e_txt env p = None \<longrightarrow>
      get_document_info env p = ''document'' \<and>
      create_organized_filename env p ''Documents''
        = stem_of p @ ''_document'' @ ensured_extension env p)
   \<and> (category \<notin> {''Images'', ''Videos'', ''Audio'', ''Documents''} \<longrightarrow>
      create_organized_filename env p category = stem_of p @ ensured_extension env p)"
proof (intro conjI impI)
  assume "e_image env p = None"
  then show "get_image_info env p = ''unknown''"
    by (simp add: get_image_info_def)
  then show "create_organized_filename env p ''Images'' = stem_of p @ ensured_extension env p"
    by (simp add: create_organized_filename_eq)
next
  assume "e_video env p = None \<or> e_video env p = Some None"
  then show "get_video_info env p = ''unknown''"
    by (auto simp: get_video_info_def)
  then show "create_organized_filename env p ''Videos'' = stem_of p @ ensured_extension env p"
    by (simp add: create_organized_filename_eq)
next
  assume "e_audio env p = None \<or> e_audio env p = Some None"
  then show "get_audio_info env p = ''unknown''"
    by (auto simp: get_audio_info_def)
  then show "create_organized_filename env p ''Audio'' = stem_of p @ ensured_extension env p"
    by (simp add: create_organized_filename_eq)
next
  assume "e_pdf env p = None \<and> e_docx env p = None \<and> e_pptx env p = None \<and> e_txt env p = None"
  then show "get_document_info env p = ''document''"
    by (simp add: get_document_info_failed)
  then show "create_organized_filename env p ''Documents''
        = stem_of p @ ''_document'' @ ensured_extension env p"
    by (simp add: create_organized_filename_eq)
next
  assume "category \<notin> {''Images'', ''Videos'', ''Audio'', ''Documents''}"
  then show "create_organized_filename env p category = stem_of p @ ensured_extension env p"
    by (simp add: create_organized_filename_eq)
qed


lemma splitext_concat: "fst (splitext p) @ snd (splitext p) = p"
  by (simp add: splitext_def Let_def split: option.splits)

lemma resolve_numbered:
  "\<not> path_exists fs (resolve fs d b e p 1) \<and>
   (resolve fs d b e p 1 = p \<and> \<not> path_exists fs p
    \<or> path_exists fs p \<and>
      (\<exists>k\<ge>1. resolve fs d b e p 1 = path_join d (b @ ''_'' @ str_nat k @ e) \<and>
         (\<forall>j. 1 \<le> j \<and> j < k \<longrightarrow> path_exists fs (path_join d (b @ ''_'' @ str_nat j @ e)))))"
  using resolve_free [of fs d b e p 1] resolve_shape [of fs d b e p 1]
  by (simp add: numbered_def)

lemma choose_destination_plain:
  assumes "choose_destination env out org False n i p fs = (fs1, Inr (category, dest))"
  shows "category = fst (detect_file_type env p)"
    and "makedirs env fs (if org then path_join out category else out) = (fs1, None)"
    and "dest = resolve fs1 (if org then path_join out category else out)
                  (fst (splitext (stem_of p @ ensured_extension env p)))
                  (snd (splitext (stem_of p @ ensured_extension env p)))
                  (path_join (if org then path_join out category else out)
                     (stem_of p @ ensured_extension env p)) 1"
  using assms
  by (auto simp: choose_destination_def ensured_extension_def Let_def
      split: option.splits prod.splits sum.splits if_splits)

lemma detect_no_probe:
  "detect_file_type
     (env\<lparr>e_image := im, e_video := vi, e_audio := au, e_pdf := pd, e_docx := dx, e_pptx := px,
          e_txt := tx\<rparr>) p
   = detect_file_type env p"
  by (simp add: detect_file_type_def)

lemma makedirs_no_probe:
  "makedirs
     (env\<lparr>e_image := im, e_video := vi, e_audio := au, e_pdf := pd, e_docx := dx, e_pptx := px,
          e_txt := tx\<rparr>) fs d
   = makedirs env fs d"
  by (simp add: makedirs_def)

lemma choose_destination_no_probe:
  "choose_destination
     (env\<lparr>e_image := im, e_video := vi, e_audio := au, e_pdf := pd, e_docx := dx, e_pptx := px,
          e_txt := tx\<rparr>) out org False n i p fs
   = choose_destination env out org False n i p fs"
  unfolding choose_destination_def detect_no_probe makedirs_no_probe
  by (simp add: Let_def split: option.splits prod.splits sum.splits)

lemma run_files:
  assumes "process_and_organize_files env inp out org meta fs = (res, fs')"
  shows "\<exists>new. fs_files fs' = fs_files fs @ new \<and>
           processed_files res \<le> length new \<and>
           length new \<le> processed_files res + length (errors res) \<and>
           distinct (map fst new) \<and> (\<forall>q \<in> fst ` set new. \<not> path_exists fs q)"
proof -
  let ?files = "e_walk env inp"
  let ?res0 = "\<lparr>total_files = length ?files, processed_files = 0, errors = [], categories = []\<rparr>"
  from assms
  have "process_loop env out org meta (length ?files) 0 ?files (?res0, fs) = (res, fs')"
    by (simp add: process_and_organize_files_def Let_def)
  from process_loop_files [OF this] show ?thesis by auto
qed

lemma run_all_processed:
  assumes "process_and_organize_files env inp out org meta fs = (res, fs')"
    and "errors res = []"
  shows "processed_files res = length (e_walk env inp)"
proof -
  let ?files = "e_walk env inp"
  let ?res0 = "\<lparr>total_files = length ?files, processed_files = 0, errors = [], categories = []\<rparr>"
  from assms(1)
  have "process_loop env out org meta (length ?files) 0 ?files (?res0, fs) = (res, fs')"
    by (simp add: process_and_organize_files_def Let_def)
  from process_loop_accounting [OF this] assms(2) show ?thesis by simp
qed

section \<open>Properties of the front end\<close>

lemma run_events_ignores_flag:
  assumes "output_folder g' = output_folder g" "organize_by_type g' = organize_by_type g"
    "add_metadata_to_filename g' = add_metadata_to_filename g"
  shows "snd (run_events env n evs (g', w)) = snd (run_events env n (filter (\<lambda>e. e = WorkerStep) evs) (g, w))"
  using assms
proof (induction evs arbitrary: g g' w)
  case Nil
  then show ?case by simp
next
  case (Cons ev evs)
  obtain i files st where w: "w = (i, files, st)" by (cases w)
  show ?case
  proof (cases ev)
    case StopPressed
    have "snd (run_events env n evs (stop_processing g', w))
        = snd (run_events env n (filter (\<lambda>e. e = WorkerStep) evs) (g, w))"
      using Cons.prems by (intro Cons.IH) (simp_all add: stop_processing_def)
    with StopPressed show ?thesis by simp
  next
    case WorkerStep
    show ?thesis
    proof (cases files)
      case none: Nil
      with WorkerStep w Cons.IH [OF Cons.prems] show ?thesis by simp
    next
      case more: (Cons f fl)
      with WorkerStep w Cons.IH [OF Cons.prems] Cons.prems show ?thesis by simp
    qed
  qed
qed

lemma worker_steps_are_the_loop:
  "run_events env n (replicate (length files) WorkerStep) (g, (i, files, st))
     = (g, (i + length files, [],
            process_loop env (output_folder g) (organize_by_type g) (add_metadata_to_filename g)
              n i files st))"
  by (induction files arbitrary: i st) simp_all

section \<open>The claims\<close>

text \<open>
  Claim C1. When the file can be read, the signature table is tested in the order of its
  declaration and the first entry whose prefix the file starts with decides the result,
  whatever the name of the file: if entry \<open>i\<close> matches and no entry before it does, the
  result is the category and format of entry \<open>i\<close> with the method \<open>magic_bytes\<close>. In
  particular a file that starts with \<open>PK\x03\x04\<close> is (Documents, office), although the
  later entry \<open>PK\<close> (Archives, zip) matches too, and a file that starts with \<open>RIFF\<close>
  is (Videos, webp), a WAV file included.
\<close>

theorem C1_first_signature_wins:
  assumes "e_read env file_path = Inr content"
  shows "(\<forall>i sig cat fmt.
            i < length signatures \<and> signatures ! i = (sig, cat, fmt) \<and> prefix sig content \<and>
            (\<forall>e \<in> set (take i signatures). \<not> prefix (fst e) content)
            \<longrightarrow> detect_file_type env file_path = (cat, fmt, ''magic_bytes''))
       \<and> (prefix (''PK'' @ [CHR 0x03, CHR 0x04]) content
            \<longrightarrow> prefix ''PK'' content \<and>
                detect_file_type env file_path = (''Documents'', ''office'', ''magic_bytes''))
       \<and> (prefix ''RIFF'' content
            \<longrightarrow> detect_file_type env file_path = (''Videos'', ''webp'', ''magic_bytes''))"
proof (intro conjI allI impI)
  fix i sig cat fmt
  assume "i < length signatures \<and> signatures ! i = (sig, cat, fmt) \<and> prefix sig content \<and>
            (\<forall>e \<in> set (take i signatures). \<not> prefix (fst e) content)"
  with assms show "detect_file_type env file_path = (cat, fmt, ''magic_bytes'')"
    by (intro detect_magic [of env file_path content i sig cat fmt]) simp_all
next
  assume pk: "prefix (''PK'' @ [CHR 0x03, CHR 0x04]) content"
  then obtain rest where c: "content = ''PK'' @ [CHR 0x03, CHR 0x04] @ rest"
    by (auto simp: prefix_def)
  then show "prefix ''PK'' content" by simp
  have "\<forall>e \<in> set (take 13 signatures). \<not> prefix (fst e) content"
    unfolding c by (simp add: signatures_def)
  moreover have "signatures ! 13 = (''PK'' @ [CHR 0x03, CHR 0x04], ''Documents'', ''office'')"
    by (simp add: signatures_def)
  moreover have "13 < length signatures"
    by (simp add: signatures_def)
  ultimately show "detect_file_type env file_path = (''Documents'', ''office'', ''magic_bytes'')"
    using assms pk by (intro detect_magic [of env file_path content 13]) simp_all
next
  assume riff: "prefix ''RIFF'' content"
  then obtain rest where c: "content = ''RIFF'' @ rest"
    by (auto simp: prefix_def)
  have "\<forall>e \<in> set (take 9 signatures). \<not> prefix (fst e) content"
    unfolding c by (simp add: signatures_def)
  moreover have "signatures ! 9 = (''RIFF'', ''Videos'', ''webp'')"
    by (simp add: signatures_def)
  moreover have "9 < length signatures"
    by (simp add: signatures_def)
  ultimately show "detect_file_type env file_path = (''Videos'', ''webp'', ''magic_bytes'')"
    using assms riff by (intro detect_magic [of env file_path content 9]) simp_all
qed

theorem C1_witness:
  "detect_file_type demo_env ''/src/notes.txt'' = (''Documents'', ''office'', ''magic_bytes'')
   \<and> detect_file_type demo_env ''/src/song.wav'' = (''Videos'', ''webp'', ''magic_bytes'')"
proof -
  have r1: "e_read demo_env ''/src/notes.txt'' = Inr (''PK'' @ [CHR 0x03, CHR 0x04] @ ''word/'')"
    by (simp add: demo_env_def plain_env_def demo_read_def)
  have r2: "e_read demo_env ''/src/song.wav'' = Inr ''RIFF$WAVEfmt ''"
    by (simp add: demo_env_def plain_env_def demo_read_def)
  have "13 < length signatures
        \<and> signatures ! 13 = (''PK'' @ [CHR 0x03, CHR 0x04], ''Documents'', ''office'')
        \<and> prefix (''PK'' @ [CHR 0x03, CHR 0x04]) (''PK'' @ [CHR 0x03, CHR 0x04] @ ''word/'')
        \<and> (\<forall>e \<in> set (take 13 signatures).
              \<not> prefix (fst e) (''PK'' @ [CHR 0x03, CHR 0x04] @ ''word/''))"
    by (simp add: signatures_def)
  with C1_first_signature_wins [OF r1]
  have "detect_file_type demo_env ''/src/notes.txt'' = (''Documents'', ''office'', ''magic_bytes'')"
    by blast
  moreover have "prefix ''RIFF'' ''RIFF$WAVEfmt ''" by simp
  with C1_first_signature_wins [OF r2]
  have "detect_file_type demo_env ''/src/song.wav'' = (''Videos'', ''webp'', ''magic_bytes'')"
    by blast
  ultimately show ?thesis by simp
qed

text \<open>
  Claim C2, as the code has it. Every file a run writes goes to a path that did not exist:
  the paths of the files a run adds (the copies, and what a copy that failed part-way left
  behind) are pairwise distinct and none of them existed before the run, so the files that
  existed keep their place and content. A run adds at least as many files as it counts as
  processed and at most one more for each error it records. Two runs into the same
  destination, when neither records an error, add the number of source files each of them
  found; when they found the same source files and the destination was empty, the second
  run doubles the file count. The collision loop ends with a path that does not exist: the
  candidate itself when it is free, and otherwise the candidate with \<open>_k\<close> between the
  two parts into which \<open>os.path.splitext\<close> splits the name, for the first \<open>k\<close> from 1 on
  whose path is free. The destination the loop computes for a file whose copy fails before
  the destination is created is not reserved.
\<close>

theorem C2_copied_files_get_fresh_paths:
  assumes "process_and_organize_files env1 inp out org meta fs0 = (r1, fs1)"
    and "process_and_organize_files env2 inp out org meta fs1 = (r2, fs2)"
  shows "(\<exists>new. fs_files fs1 = fs_files fs0 @ new \<and>
            processed_files r1 \<le> length new \<and>
            length new \<le> processed_files r1 + length (errors r1) \<and>
            distinct (map fst new) \<and> (\<forall>q \<in> fst ` set new. \<not> path_exists fs0 q))
       \<and> (\<exists>new. fs_files fs2 = fs_files fs1 @ new \<and>
            processed_files r2 \<le> length new \<and>
            length new \<le> processed_files r2 + length (errors r2) \<and>
            distinct (map fst new) \<and> (\<forall>q \<in> fst ` set new. \<not> path_exists fs1 q))
       \<and> (errors r1 = [] \<and> errors r2 = [] \<longrightarrow>
            length (fs_files fs2)
              = length (fs_files fs0) + length (e_walk env1 inp) + length (e_walk env2 inp))
       \<and> (errors r1 = [] \<and> errors r2 = [] \<and> fs_files fs0 = [] \<and>
          e_walk env2 inp = e_walk env1 inp \<longrightarrow>
            length (fs_files fs2) = 2 * length (fs_files fs1))
       \<and> (\<forall>fs d name.
            fst (splitext name) @ snd (splitext name) = name \<and>
            \<not> path_exists fs
                (resolve fs d (fst (splitext name)) (snd (splitext name)) (path_join d name) 1) \<and>
            (resolve fs d (fst (splitext name)) (snd (splitext name)) (path_join d name) 1
               = path_join d name \<and> \<not> path_exists fs (path_join d name)
             \<or> path_exists fs (path_join d name) \<and>
               (\<exists>k\<ge>1.
                  resolve fs d (fst (splitext name)) (snd (splitext name)) (path_join d name) 1
                    = path_join d (fst (splitext name) @ ''_'' @ str_nat k @ snd (splitext name)) \<and>
                  (\<forall>j. 1 \<le> j \<and> j < k \<longrightarrow>
                     path_exists fs
                       (path_join d
                          (fst (splitext name) @ ''_'' @ str_nat j @ snd (splitext name)))))))"
proof -
  from run_files [OF assms(1)] obtain new1 where n1:
    "fs_files fs1 = fs_files fs0 @ new1" "processed_files r1 \<le> length new1"
    "length new1 \<le> processed_files r1 + length (errors r1)"
    "distinct (map fst new1)" "\<forall>q \<in> fst ` set new1. \<not> path_exists fs0 q"
    by blast
  from run_files [OF assms(2)] obtain new2 where n2:
    "fs_files fs2 = fs_files fs1 @ new2" "processed_files r2 \<le> length new2"
    "length new2 \<le> processed_files r2 + length (errors r2)"
    "distinct (map fst new2)" "\<forall>q \<in> fst ` set new2. \<not> path_exists fs1 q"
    by blast
  have a: "\<exists>new. fs_files fs1 = fs_files fs0 @ new \<and>
            processed_files r1 \<le> length new \<and>
            length new \<le> processed_files r1 + length (errors r1) \<and>
            distinct (map fst new) \<and> (\<forall>q \<in> fst ` set new. \<not> path_exists fs0 q)"
    using n1 by blast
  have b: "\<exists>new. fs_files fs2 = fs_files fs1 @ new \<and>
            processed_files r2 \<le> length new \<and>
            length new \<le> processed_files r2 + length (errors r2) \<and>
            distinct (map fst new) \<and> (\<forall>q \<in> fst ` set new. \<not> path_exists fs1 q)"
    using n2 by blast
  have c: "errors r1 = [] \<and> errors r2 = [] \<longrightarrow>
            length (fs_files fs2)
              = length (fs_files fs0) + length (e_walk env1 inp) + length (e_walk env2 inp)"
    using run_all_processed [OF assms(1)] run_all_processed [OF assms(2)] n1(1,2,3) n2(1,2,3)
    by auto
  have d: "errors r1 = [] \<and> errors r2 = [] \<and> fs_files fs0 = [] \<and>
          e_walk env2 inp = e_walk env1 inp \<longrightarrow>
            length (fs_files fs2) = 2 * length (fs_files fs1)"
    using run_all_processed [OF assms(1)] run_all_processed [OF assms(2)] n1(1,2,3) n2(1,2,3)
    by auto
  have e: "\<forall>fs d name.
            fst (splitext name) @ snd (splitext name) = name \<and>
            \<not> path_exists fs
                (resolve fs d (fst (splitext name)) (snd (splitext name)) (path_join d name) 1) \<and>
            (resolve fs d (fst (splitext name)) (snd (splitext name)) (path_join d name) 1
               = path_join d name \<and> \<not> path_exists fs (path_join d name)
             \<or> path_exists fs (path_join d name) \<and>
               (\<exists>k\<ge>1.
                  resolve fs d (fst (splitext name)) (snd (splitext name)) (path_join d name) 1
                    = path_join d (fst (splitext name) @ ''_'' @ str_nat k @ snd (splitext name)) \<and>
                  (\<forall>j. 1 \<le> j \<and> j < k \<longrightarrow>
                     path_exists fs
                       (path_join d
                          (fst (splitext name) @ ''_'' @ str_nat j @ snd (splitext name))))))"
    using splitext_concat resolve_numbered by blast
  from a b c d e show ?thesis by blast
qed

theorem C2_witness:
  "process_and_organize_files twin_env ''/src'' ''/out'' True False dest_fs
     = (\<lparr>total_files = 2, processed_files = 2, errors = [], categories = [(''Images'', 2)]\<rparr>,
        \<lparr>fs_files = [(''/out/Images/x.png'', []), (''/out/Images/x_1.png'', [])],
          fs_dirs = [''/src'', ''/out'', ''/out/Images'']\<rparr>)
   \<and> length (fs_files (snd (process_and_organize_files twin_env ''/src'' ''/out'' True False
        \<lparr>fs_files = [(''/out/Images/x.png'', []), (''/out/Images/x_1.png'', [])],
          fs_dirs = [''/src'', ''/out'', ''/out/Images'']\<rparr>))) = 4
   \<and> process_and_organize_files diskfull_env ''/src'' ''/out'' True False dest_fs
     = (\<lparr>total_files = 2, processed_files = 1,
          errors = [(''/src/a/x.png'', ''[Errno 28] No space left on device'')],
          categories = [(''Images'', 1)]\<rparr>,
        \<lparr>fs_files = [(''/out/Images/x.png'', ''abc''), (''/out/Images/x_1.png'', ''abcdef'')],
          fs_dirs = [''/src'', ''/out'', ''/out/Images'']\<rparr>)"
proof -
  let ?fs1 = "\<lparr>fs_files = [(''/out/Images/x.png'', []), (''/out/Images/x_1.png'', [])],
          fs_dirs = [''/src'', ''/out'', ''/out/Images'']\<rparr>"
  let ?r = "\<lparr>total_files = 2, processed_files = 2, errors = [], categories = [(''Images'', 2)]\<rparr>"
  have run1: "process_and_organize_files twin_env ''/src'' ''/out'' True False dest_fs = (?r, ?fs1)"
    by code_simp
  have r2: "fst (process_and_organize_files twin_env ''/src'' ''/out'' True False ?fs1) = ?r"
    by code_simp
  then have run2: "process_and_organize_files twin_env ''/src'' ''/out'' True False ?fs1
      = (?r, snd (process_and_organize_files twin_env ''/src'' ''/out'' True False ?fs1))"
    by (metis prod.collapse)
  have "fs_files dest_fs = []" by (simp add: dest_fs_def)
  with C2_copied_files_get_fresh_paths [OF run1 run2]
  have "length (fs_files (snd (process_and_organize_files twin_env ''/src'' ''/out'' True False ?fs1)))
      = 2 * length (fs_files ?fs1)"
    by simp
  moreover have "process_and_organize_files diskfull_env ''/src'' ''/out'' True False dest_fs
     = (\<lparr>total_files = 2, processed_files = 1,
          errors = [(''/src/a/x.png'', ''[Errno 28] No space left on device'')],
          categories = [(''Images'', 1)]\<rparr>,
        \<lparr>fs_files = [(''/out/Images/x.png'', ''abc''), (''/out/Images/x_1.png'', ''abcdef'')],
          fs_dirs = [''/src'', ''/out'', ''/out/Images'']\<rparr>)"
    by code_simp
  ultimately show ?thesis using run1 by simp
qed

text \<open>
  Counterexample to claim C2 as the specification words it: that the construction never
  produces two equal destination paths within a run fails when a copy fails before its
  destination is created: the path computed for the first file stays free and is computed
  again for the second file. Here two files of the same name cannot be read; both are
  classified Error and both get the destination \<open>/out/Error/x.txt\<close>.
\<close>

theorem C2_counterexample:
  "choose_destination locked_env ''/out'' True False 2 0 ''/src/a/x.txt'' dest_fs
     = (\<lparr>fs_files = [], fs_dirs = [''/src'', ''/out'', ''/out/Error'']\<rparr>,
        Inr (''Error'', ''/out/Error/x.txt''))
   \<and> process_file locked_env ''/out'' True False 2 0 ''/src/a/x.txt''
       (\<lparr>total_files = 2, processed_files = 0, errors = [], categories = []\<rparr>, dest_fs)
     = (\<lparr>total_files = 2, processed_files = 0,
          errors = [(''/src/a/x.txt'', ''[Errno 13] Permission denied'')], categories = []\<rparr>,
        \<lparr>fs_files = [], fs_dirs = [''/src'', ''/out'', ''/out/Error'']\<rparr>)
   \<and> choose_destination locked_env ''/out'' True False 2 1 ''/src/b/x.txt''
       \<lparr>fs_files = [], fs_dirs = [''/src'', ''/out'', ''/out/Error'']\<rparr>
     = (\<lparr>fs_files = [], fs_dirs = [''/src'', ''/out'', ''/out/Error'']\<rparr>,
        Inr (''Error'', ''/out/Error/x.txt''))"
  by code_simp

text \<open>
  Claim C3. The classifier returns a triple for every path; each call of its body that can
  raise is inside the \<open>try\<close> block, whose handler catches \<open>Exception\<close>. When reading
  the file raises an exception with the text \<open>e\<close>, the result is the category Error,
  the format \<open>e\<close> and the method \<open>error\<close>. The run is not aborted: the turn of the loop
  for such a file ends with the file counted under a category or recorded as one error,
  and the loop goes on with the files left.
\<close>

theorem C3_read_error_is_classified:
  assumes "e_read env file_path = Inl e"
  shows "detect_file_type env file_path = (''Error'', e, ''error'')
       \<and> (\<forall>res fs. \<exists>res' fs'.
            process_file env out org meta n i file_path (res, fs) = (res', fs') \<and>
            ((\<exists>msg. res' = res\<lparr>errors := errors res @ [(file_path, msg)]\<rparr>)
             \<or> res' = res\<lparr>categories := count_category ''Error'' (categories res),
                            processed_files := processed_files res + 1\<rparr>) \<and>
            process_loop env out org meta n i (file_path # files) (res, fs)
              = process_loop env out org meta n (i + 1) files (res', fs'))"
proof (intro conjI allI)
  show d: "detect_file_type env file_path = (''Error'', e, ''error'')"
    using assms by (simp add: detect_file_type_def)
  fix res fs
  obtain res' fs' where step: "process_file env out org meta n i file_path (res, fs) = (res', fs')"
    by (cases "process_file env out org meta n i file_path (res, fs)")
  from process_file_cases [OF step] d
  have "(\<exists>msg. res' = res\<lparr>errors := errors res @ [(file_path, msg)]\<rparr>)
         \<or> res' = res\<lparr>categories := count_category ''Error'' (categories res),
                        processed_files := processed_files res + 1\<rparr>"
    by auto
  with step show "\<exists>res' fs'.
            process_file env out org meta n i file_path (res, fs) = (res', fs') \<and>
            ((\<exists>msg. res' = res\<lparr>errors := errors res @ [(file_path, msg)]\<rparr>)
             \<or> res' = res\<lparr>categories := count_category ''Error'' (categories res),
                            processed_files := processed_files res + 1\<rparr>) \<and>
            process_loop env out org meta n i (file_path # files) (res, fs)
              = process_loop env out org meta n (i + 1) files (res', fs')"
    by (intro exI [of _ res'] exI [of _ fs']) simp
qed

theorem C3_witness:
  "e_read demo_env ''/src/locked'' = Inl ''[Errno 13] Permission denied''
   \<and> detect_file_type demo_env ''/src/locked''
       = (''Error'', ''[Errno 13] Permission denied'', ''error'')"
proof -
  have 1: "e_read demo_env ''/src/locked'' = Inl ''[Errno 13] Permission denied''"
    by (simp add: demo_env_def plain_env_def demo_read_def)
  from C3_read_error_is_classified [OF 1] 1 show ?thesis by blast
qed

text \<open>
  Claim C4, at the input where the code departs from it. \<open>stop_processing\<close> clears the flag
  \<open>processing\<close> of the front end, but the loop of \<open>process_and_organize_files\<close> never
  reads it: whatever the calls of \<open>stop_processing\<close> between the turns, the worker ends in
  the state it reaches without them (lemma \<open>run_events_ignores_flag\<close>). With two files
  in the source tree and the stop requested before the first file, the flag is cleared and
  both files are still copied and counted.
\<close>

theorem C4_stop_is_not_checked:
  "processing (fst (run_events twin_env 2 [StopPressed] (worker_start twin_env twin_gui dest_fs)))
     = False
   \<and> run_events twin_env 2 [StopPressed, WorkerStep, WorkerStep]
       (worker_start twin_env twin_gui dest_fs)
     = (twin_gui\<lparr>processing := False\<rparr>, 2, [],
        \<lparr>total_files = 2, processed_files = 2, errors = [], categories = [(''Images'', 2)]\<rparr>,
        \<lparr>fs_files = [(''/out/Images/x.png'', []), (''/out/Images/x_1.png'', [])],
          fs_dirs = [''/src'', ''/out'', ''/out/Images'']\<rparr>)"
  by code_simp

text \<open>
  Claim C5, at the input where the code departs from it. The image, video and audio probes
  return \<open>"unknown"\<close> when their decoder fails, and \<open>create_organized_filename\<close> leaves
  that token out (lemma \<open>failed_probe_tokens\<close>). The document probe returns
  \<open>"document"\<close> from its exception handler: for a file with the PDF magic bytes that
  PyPDF2 cannot parse, the token is not \<open>"unknown"\<close> and it is appended to the file name.
\<close>

theorem C5_failed_document_probe_is_appended:
  "e_pdf pdf_env ''/src/broken.pdf'' = None
   \<and> detect_file_type pdf_env ''/src/broken.pdf'' = (''Documents'', ''pdf'', ''magic_bytes'')
   \<and> get_document_info pdf_env ''/src/broken.pdf'' = ''document''
   \<and> get_document_info pdf_env ''/src/broken.pdf'' \<noteq> ''unknown''
   \<and> create_organized_filename pdf_env ''/src/broken.pdf'' ''Documents'' = ''broken_document.pdf''"
proof -
  have "e_pdf pdf_env ''/src/broken.pdf'' = None"
    by (simp add: pdf_env_def plain_env_def)
  moreover have "detect_file_type pdf_env ''/src/broken.pdf''
      = (''Documents'', ''pdf'', ''magic_bytes'')"
    by code_simp
  moreover have "get_document_info pdf_env ''/src/broken.pdf'' = ''document''"
    by code_simp
  moreover have "create_organized_filename pdf_env ''/src/broken.pdf'' ''Documents''
      = ''broken_document.pdf''"
    by code_simp
  ultimately show ?thesis by simp
qed

text \<open>
  Claim C6, as the code has it. When metadata is not added, no decoder is consulted and the
  file name the loop builds is the stem followed by the extension. The destination is that
  name in the destination folder when no such path exists there; when one exists, the
  collision loop inserts \<open>_k\<close>, for some \<open>k\<close> from 1 on, between the two parts into
  which \<open>os.path.splitext\<close> splits the name, that is before the extension (a name whose
  stem is made of dots has no extension for \<open>os.path.splitext\<close>, and \<open>_k\<close> goes to
  its end). The destination never depends on what the decoders would return.
\<close>

theorem C6_plain_name_and_collision_suffix:
  assumes "choose_destination env out org False n i p fs = (fs1, Inr (category, dest))"
  shows "(\<not> path_exists fs1
             (path_join (if org then path_join out category else out)
                (stem_of p @ ensured_extension env p))
          \<longrightarrow> dest = path_join (if org then path_join out category else out)
                       (stem_of p @ ensured_extension env p))
       \<and> (path_exists fs1
             (path_join (if org then path_join out category else out)
                (stem_of p @ ensured_extension env p))
          \<longrightarrow> (\<exists>k\<ge>1. dest = path_join (if org then path_join out category else out)
                            (fst (splitext (stem_of p @ ensured_extension env p)) @ ''_'' @
                             str_nat k @
                             snd (splitext (stem_of p @ ensured_extension env p)))))
       \<and> \<not> path_exists fs1 dest
       \<and> choose_destination
           (env\<lparr>e_image := im, e_video := vi, e_audio := au, e_pdf := pd, e_docx := dx,
                e_pptx := px, e_txt := tx\<rparr>) out org False n i p fs
         = (fs1, Inr (category, dest))"
proof -
  let ?folder = "if org then path_join out category else out"
  let ?name = "stem_of p @ ensured_extension env p"
  have dest: "dest = resolve fs1 ?folder (fst (splitext ?name)) (snd (splitext ?name))
                       (path_join ?folder ?name) 1"
    using assms by (rule choose_destination_plain(3))
  from resolve_numbered [of fs1 ?folder "fst (splitext ?name)" "snd (splitext ?name)"
      "path_join ?folder ?name"]
  show ?thesis
    unfolding dest [symmetric] choose_destination_no_probe assms
    by blast
qed

theorem C6_witness:
  "choose_destination twin_env ''/out'' True False 2 0 ''/src/a/x.png'' dest_fs
     = (\<lparr>fs_files = [], fs_dirs = [''/src'', ''/out'', ''/out/Images'']\<rparr>,
        Inr (''Images'', ''/out/Images/x.png''))"
proof -
  have run: "choose_destination twin_env ''/out'' True False 2 0 ''/src/a/x.png'' dest_fs
     = (\<lparr>fs_files = [], fs_dirs = [''/src'', ''/out'', ''/out/Images'']\<rparr>,
        Inr (''Images'', resolve \<lparr>fs_files = [], fs_dirs = [''/src'', ''/out'', ''/out/Images'']\<rparr>
          ''/out/Images'' ''x'' ''.png'' ''/out/Images/x.png'' 1))"
    by code_simp
  have nm: "path_join (if True then path_join ''/out'' ''Images'' else ''/out'')
                (stem_of ''/src/a/x.png'' @ ensured_extension twin_env ''/src/a/x.png'')
            = ''/out/Images/x.png''"
    by code_simp
  have free: "\<not> path_exists \<lparr>fs_files = [], fs_dirs = [''/src'', ''/out'', ''/out/Images'']\<rparr>
                 ''/out/Images/x.png''"
    by (simp add: path_exists_def)
  from C6_plain_name_and_collision_suffix [OF run] free
  have "resolve \<lparr>fs_files = [], fs_dirs = [''/src'', ''/out'', ''/out/Images'']\<rparr>
          ''/out/Images'' ''x'' ''.png'' ''/out/Images/x.png'' 1 = ''/out/Images/x.png''"
    unfolding nm by blast
  with run show ?thesis by simp
qed

text \<open>
  Counterexample to claim C6 as the specification words it: that every destination file
  name is exactly the stem and the extension fails when two files of the source tree have
  the same name: the second \<open>x.png\<close> is copied to \<open>x_1.png\<close>.
\<close>

theorem C6_counterexample:
  "snd (process_and_organize_files twin_env ''/src'' ''/out'' True False dest_fs)
     = \<lparr>fs_files = [(''/out/Images/x.png'', []), (''/out/Images/x_1.png'', [])],
        fs_dirs = [''/src'', ''/out'', ''/out/Images'']\<rparr>
   \<and> stem_of ''/src/a/x.png'' @ suffix_of ''/src/a/x.png'' = ''x.png''
   \<and> stem_of ''/src/b/x.png'' @ suffix_of ''/src/b/x.png'' = ''x.png''
   \<and> basename ''/out/Images/x_1.png'' \<noteq> ''x.png''"
  by code_simp

text \<open>
  Claim C7. When the file can be read, none of the magic prefixes starts its content, and
  the lower-cased extension of its name is listed under a category of the extension table,
  the result is that category, the lower-cased extension without its leading dot as the
  format, and the method \<open>file_extension\<close>.
\<close>

theorem C7_extension_fallback:
  assumes "e_read env file_path = Inr content"
    and "\<forall>e \<in> set signatures. \<not> prefix (fst e) content"
    and "(category, extensions) \<in> set SUPPORTED_FORMATS"
    and "lower (suffix_of file_path) \<in> set extensions"
  shows "detect_file_type env file_path =
           (category, drop 1 (lower (suffix_of file_path)), ''file_extension'')
         \<and> lower (suffix_of file_path) = ''.'' @ drop 1 (lower (suffix_of file_path))"
proof -
  have "detect_file_type env file_path =
           (category, drop 1 (lower (suffix_of file_path)), ''file_extension'')"
    using assms by (rule detect_by_extension)
  moreover have "lower (suffix_of file_path) \<noteq> [] \<and> hd (lower (suffix_of file_path)) = CHR ''.''"
    using extensions_dotted assms(3,4) by (fastforce simp: list_all_iff)
  then have "lower (suffix_of file_path) = ''.'' @ drop 1 (lower (suffix_of file_path))"
    by (cases "lower (suffix_of file_path)") auto
  ultimately show ?thesis by simp
qed

theorem C7_witness:
  "detect_file_type demo_env ''/src/b.TXT'' = (''Documents'', ''txt'', ''file_extension'')"
proof -
  have 1: "e_read demo_env ''/src/b.TXT'' = Inr ''hello''"
    by (simp add: demo_env_def plain_env_def demo_read_def)
  have 2: "\<forall>e \<in> set signatures. \<not> prefix (fst e) ''hello''"
    by (simp add: signatures_def)
  have 3: "(''Documents'', [''.pdf'', ''.docx'', ''.doc'', ''.txt'', ''.pptx'', ''.ppt''])
            \<in> set SUPPORTED_FORMATS"
    by (simp add: SUPPORTED_FORMATS_def)
  have 4: "lower (suffix_of ''/src/b.TXT'') = ''.txt''"
    by code_simp
  have 5: "lower (suffix_of ''/src/b.TXT'')
            \<in> set [''.pdf'', ''.docx'', ''.doc'', ''.txt'', ''.pptx'', ''.ppt'']"
    unfolding 4 by simp
  from C7_extension_fallback [OF 1 2 3 5] show ?thesis
    unfolding 4 by simp
qed

text \<open>
  Claim C8, as the code has it. A zero-byte file never crashes the classifier and never
  matches a magic prefix, but the extension of its name still counts: the result is the
  category of the extension table with the method \<open>file_extension\<close> when the lower-cased
  extension is listed there, and (Other, unknown, unknown) otherwise.
\<close>

theorem C8_empty_file_by_extension:
  assumes "e_read env file_path = Inr []"
  shows "(\<forall>category extensions.
            (category, extensions) \<in> set SUPPORTED_FORMATS \<and>
            lower (suffix_of file_path) \<in> set extensions
            \<longrightarrow> detect_file_type env file_path =
                  (category, drop 1 (lower (suffix_of file_path)), ''file_extension''))
       \<and> ((\<forall>e \<in> set SUPPORTED_FORMATS. lower (suffix_of file_path) \<notin> set (snd e))
            \<longrightarrow> detect_file_type env file_path = (''Other'', ''unknown'', ''unknown''))"
proof (intro conjI allI impI)
  fix category extensions
  assume "(category, extensions) \<in> set SUPPORTED_FORMATS \<and>
            lower (suffix_of file_path) \<in> set extensions"
  then show "detect_file_type env file_path =
                  (category, drop 1 (lower (suffix_of file_path)), ''file_extension'')"
    using detect_by_extension [OF assms no_signature_empty] by blast
next
  assume "\<forall>e \<in> set SUPPORTED_FORMATS. lower (suffix_of file_path) \<notin> set (snd e)"
  then have "match_extension SUPPORTED_FORMATS (lower (suffix_of file_path)) = None"
    by (simp add: match_extension_None)
  with detect_no_magic [OF assms no_signature_empty]
  show "detect_file_type env file_path = (''Other'', ''unknown'', ''unknown'')"
    by simp
qed

theorem C8_witness:
  "detect_file_type demo_env ''/src/empty.txt'' = (''Documents'', ''txt'', ''file_extension'')
   \<and> detect_file_type demo_env ''/src/blank'' = (''Other'', ''unknown'', ''unknown'')"
proof -
  have 1: "e_read demo_env ''/src/empty.txt'' = Inr []"
    by (simp add: demo_env_def plain_env_def demo_read_def)
  have 2: "e_read demo_env ''/src/blank'' = Inr []"
    by (simp add: demo_env_def plain_env_def demo_read_def)
  have 3: "lower (suffix_of ''/src/empty.txt'') = ''.txt''"
    by code_simp
  have 4: "lower (suffix_of ''/src/blank'') = []"
    by code_simp
  have "(''Documents'', [''.pdf'', ''.docx'', ''.doc'', ''.txt'', ''.pptx'', ''.ppt''])
          \<in> set SUPPORTED_FORMATS
        \<and> lower (suffix_of ''/src/empty.txt'')
          \<in> set [''.pdf'', ''.docx'', ''.doc'', ''.txt'', ''.pptx'', ''.ppt'']"
    unfolding 3 by (simp add: SUPPORTED_FORMATS_def)
  with C8_empty_file_by_extension [OF 1]
  have "detect_file_type demo_env ''/src/empty.txt''
          = (''Documents'', drop 1 (lower (suffix_of ''/src/empty.txt'')), ''file_extension'')"
    by blast
  moreover have "\<forall>e \<in> set SUPPORTED_FORMATS. lower (suffix_of ''/src/blank'') \<notin> set (snd e)"
    unfolding 4 by (simp add: SUPPORTED_FORMATS_def)
  with C8_empty_file_by_extension [OF 2]
  have "detect_file_type demo_env ''/src/blank'' = (''Other'', ''unknown'', ''unknown'')"
    by blast
  ultimately show ?thesis unfolding 3 by simp
qed

text \<open>
  Counterexample to claim C8 as the specification words it: that the category is Other or
  Error and the method unknown or error fails for the empty file \<open>empty.txt\<close>, which
  the extension table puts under Documents.
\<close>

theorem C8_counterexample:
  "e_read demo_env ''/src/empty.txt'' = Inr []
   \<and> \<not> (fst (detect_file_type demo_env ''/src/empty.txt'') \<in> {''Other'', ''Error''}
        \<and> snd (snd (detect_file_type demo_env ''/src/empty.txt'')) \<in> {''unknown'', ''error''})"
proof -
  have 1: "e_read demo_env ''/src/empty.txt'' = Inr []"
    by (simp add: demo_env_def plain_env_def demo_read_def)
  have 3: "lower (suffix_of ''/src/empty.txt'') = ''.txt''"
    by code_simp
  have "match_extension SUPPORTED_FORMATS ''.txt'' = Some ''Documents''"
    by (simp add: SUPPORTED_FORMATS_def)
  with detect_no_magic [OF 1 no_signature_empty] 3
  have "detect_file_type demo_env ''/src/empty.txt'' = (''Documents'', ''txt'', ''file_extension'')"
    by simp
  with 1 show ?thesis by simp
qed

text \<open>
  Claim C9, as the code has it. The validation is in \<open>start_processing\<close> of the front
  end: an unset input or output folder, or an input folder that does not exist, ends in an
  error dialog before anything is touched. Otherwise the output folder is created; if that
  raises, the exception leaves \<open>start_processing\<close>, no worker is started and no file has
  changed; if it succeeds, the worker is started on a file system in which the output folder
  exists and no file has changed. Whether the source can be read is not checked: a root
  in which \<open>os.walk\<close> finds no file, because it cannot be read, passes the validation
  and the worker returns the empty statistics. The pipeline function validates nothing: a
  source tree in which \<open>os.walk\<close> finds no file gives the empty statistics and no error,
  and when the progress callback has returned and the destination folder cannot be created,
  the exception is the error recorded for the file at hand.
\<close>

theorem C9_validation_in_front_end_only:
  "(input_folder g = [] \<or> output_folder g = [] \<or> \<not> path_exists fs (input_folder g)
      \<longrightarrow> (\<exists>msg. start_processing env g fs = ErrorDialog msg))
   \<and> (input_folder g \<noteq> [] \<and> output_folder g \<noteq> [] \<and> path_exists fs (input_folder g)
      \<longrightarrow> (\<forall>e fs1. makedirs env fs (output_folder g) = (fs1, Some e)
                \<longrightarrow> start_processing env g fs = Raised e fs1 \<and> fs_files fs1 = fs_files fs)
         \<and> (\<forall>fs1. makedirs env fs (output_folder g) = (fs1, None)
                \<longrightarrow> start_processing env g fs = WorkerStarted (g\<lparr>processing := True\<rparr>) fs1
                    \<and> path_exists fs1 (output_folder g) \<and> fs_files fs1 = fs_files fs))
   \<and> (e_walk env (input_folder g) = []
      \<longrightarrow> process_files env g fs
          = (g\<lparr>processing := False\<rparr>,
             \<lparr>total_files = 0, processed_files = 0, errors = [], categories = []\<rparr>, fs))
   \<and> (e_walk env inp = []
      \<longrightarrow> process_and_organize_files env inp out org meta fs
          = (\<lparr>total_files = 0, processed_files = 0, errors = [], categories = []\<rparr>, fs))
   \<and> ((case e_progress env of
          None \<Rightarrow> None
        | Some progress_callback \<Rightarrow> progress_callback (i + 1) n (basename p)) = None \<and>
       makedirs env fs (if org then path_join out (fst (detect_file_type env p)) else out)
         = (fs', Some e)
      \<longrightarrow> process_file env out org meta n i p (res, fs)
          = (res\<lparr>errors := errors res @ [(p, e)]\<rparr>, fs'))"
proof (intro conjI impI allI)
  assume "input_folder g = [] \<or> output_folder g = [] \<or> \<not> path_exists fs (input_folder g)"
  then show "\<exists>msg. start_processing env g fs = ErrorDialog msg"
    by (auto simp: start_processing_def)
next
  fix e fs1
  assume "input_folder g \<noteq> [] \<and> output_folder g \<noteq> [] \<and> path_exists fs (input_folder g)"
    and m: "makedirs env fs (output_folder g) = (fs1, Some e)"
  then show "start_processing env g fs = Raised e fs1"
    by (simp add: start_processing_def)
  from m makedirs_files [of env fs "output_folder g"] show "fs_files fs1 = fs_files fs"
    by simp
next
  fix fs1
  assume a: "input_folder g \<noteq> [] \<and> output_folder g \<noteq> [] \<and> path_exists fs (input_folder g)"
    and m: "makedirs env fs (output_folder g) = (fs1, None)"
  then show "start_processing env g fs = WorkerStarted (g\<lparr>processing := True\<rparr>) fs1"
    by (simp add: start_processing_def)
  from m makedirs_creates [of env fs "output_folder g"] show "path_exists fs1 (output_folder g)"
    by simp
  from m makedirs_files [of env fs "output_folder g"] show "fs_files fs1 = fs_files fs"
    by simp
next
  assume "e_walk env (input_folder g) = []"
  then show "process_files env g fs
          = (g\<lparr>processing := False\<rparr>,
             \<lparr>total_files = 0, processed_files = 0, errors = [], categories = []\<rparr>, fs)"
    by (simp add: process_files_def process_and_organize_files_def)
next
  assume "e_walk env inp = []"
  then show "process_and_organize_files env inp out org meta fs
          = (\<lparr>total_files = 0, processed_files = 0, errors = [], categories = []\<rparr>, fs)"
    by (simp add: process_and_organize_files_def)
next
  assume "(case e_progress env of
          None \<Rightarrow> None
        | Some progress_callback \<Rightarrow> progress_callback (i + 1) n (basename p)) = None \<and>
       makedirs env fs (if org then path_join out (fst (detect_file_type env p)) else out)
         = (fs', Some e)"
  then show "process_file env out org meta n i p (res, fs)
          = (res\<lparr>errors := errors res @ [(p, e)]\<rparr>, fs')"
    by (cases "detect_file_type env p")
       (auto simp: process_file_def try_file_def choose_destination_def Let_def)
qed

theorem C9_witness:
  "start_processing missing_env (twin_gui\<lparr>input_folder := ''/missing''\<rparr>) bare_fs
     = ErrorDialog ''Input folder does not exist''
   \<and> start_processing readonly_env twin_gui bare_fs
     = Raised ''[Errno 13] Permission denied'' bare_fs
   \<and> start_processing twin_env twin_gui bare_fs
     = WorkerStarted twin_gui \<lparr>fs_files = [], fs_dirs = [''/src'', ''/out'']\<rparr>
   \<and> process_file reporting_env ''/out'' True False 2 0 ''/src/a/x.png''
        (\<lparr>total_files = 2, processed_files = 0, errors = [], categories = []\<rparr>, bare_fs)
     = (\<lparr>total_files = 2, processed_files = 0,
          errors = [(''/src/a/x.png'', ''[Errno 13] Permission denied'')], categories = []\<rparr>,
        bare_fs)"
proof -
  have 1: "\<not> path_exists bare_fs (input_folder (twin_gui\<lparr>input_folder := ''/missing''\<rparr>))"
    by (simp add: path_exists_def bare_fs_def)
  from C9_validation_in_front_end_only
    [of "twin_gui\<lparr>input_folder := ''/missing''\<rparr>" bare_fs missing_env] 1
  obtain msg where "start_processing missing_env (twin_gui\<lparr>input_folder := ''/missing''\<rparr>) bare_fs
      = ErrorDialog msg"
    by blast
  moreover have "start_processing missing_env (twin_gui\<lparr>input_folder := ''/missing''\<rparr>) bare_fs
      = ErrorDialog ''Input folder does not exist''"
    by code_simp
  moreover have ok: "input_folder twin_gui \<noteq> [] \<and> output_folder twin_gui \<noteq> [] \<and>
      path_exists bare_fs (input_folder twin_gui)"
    by (simp add: twin_gui_def path_exists_def bare_fs_def)
  have m1: "makedirs readonly_env bare_fs (output_folder twin_gui)
      = (bare_fs, Some ''[Errno 13] Permission denied'')"
    by code_simp
  have m2: "makedirs twin_env bare_fs (output_folder twin_gui)
      = (\<lparr>fs_files = [], fs_dirs = [''/src'', ''/out'']\<rparr>, None)"
    by code_simp
  from C9_validation_in_front_end_only [of twin_gui bare_fs readonly_env] ok m1
  have "start_processing readonly_env twin_gui bare_fs
      = Raised ''[Errno 13] Permission denied'' bare_fs"
    by blast
  moreover from C9_validation_in_front_end_only [of twin_gui bare_fs twin_env] ok m2
  have "start_processing twin_env twin_gui bare_fs
     = WorkerStarted (twin_gui\<lparr>processing := True\<rparr>) \<lparr>fs_files = [], fs_dirs = [''/src'', ''/out'']\<rparr>"
    by blast
  moreover have "twin_gui\<lparr>processing := True\<rparr> = twin_gui"
    by (simp add: twin_gui_def)
  moreover have p: "(case e_progress reporting_env of
          None \<Rightarrow> None
        | Some progress_callback \<Rightarrow> progress_callback (0 + 1) 2 (basename ''/src/a/x.png'')) = None"
    by (simp add: reporting_env_def)
  have m3: "makedirs reporting_env bare_fs
         (if True then path_join ''/out'' (fst (detect_file_type reporting_env ''/src/a/x.png''))
          else ''/out'')
      = (bare_fs, Some ''[Errno 13] Permission denied'')"
    by code_simp
  from C9_validation_in_front_end_only
    [where env = reporting_env and i = 0 and n = 2 and p = "''/src/a/x.png''"
       and fs = bare_fs and org = True and out = "''/out''" and fs' = bare_fs
       and e = "''[Errno 13] Permission denied''" and meta = False
       and res = "\<lparr>total_files = 2, processed_files = 0, errors = [], categories = []\<rparr>"]
    p m3
  have "process_file reporting_env ''/out'' True False 2 0 ''/src/a/x.png''
        (\<lparr>total_files = 2, processed_files = 0, errors = [], categories = []\<rparr>, bare_fs)
     = (\<lparr>total_files = 2, processed_files = 0, errors = [], categories = []\<rparr>
          \<lparr>errors := errors \<lparr>total_files = 2, processed_files = 0, errors = [], categories = []\<rparr>
             @ [(''/src/a/x.png'', ''[Errno 13] Permission denied'')]\<rparr>, bare_fs)"
    by blast
  ultimately show ?thesis by simp
qed

text \<open>
  Counterexample to claim C9 as the specification words it: that the pipeline validates
  both roots and fails with a configuration error fails on the pipeline function. For a
  source root that does not exist it returns the empty statistics, and for a destination
  that cannot be created it runs through all files and records one error for each. It fails
  through the front end too: a source root that exists and cannot be read, so that
  \<open>os.walk\<close> finds nothing in it, passes \<open>start_processing\<close>, and the worker returns the
  empty statistics.
\<close>

theorem C9_counterexample:
  "\<not> path_exists bare_fs ''/missing''
   \<and> process_and_organize_files missing_env ''/missing'' ''/out'' True True bare_fs
     = (\<lparr>total_files = 0, processed_files = 0, errors = [], categories = []\<rparr>, bare_fs)
   \<and> e_mkdir_err readonly_env ''/out/Images'' = Some (''[Errno 13] Permission denied'', 0)
   \<and> process_and_organize_files readonly_env ''/src'' ''/out'' True True bare_fs
     = (\<lparr>total_files = 2, processed_files = 0,
          errors = [(''/src/a/x.png'', ''[Errno 13] Permission denied''),
                    (''/src/b/x.png'', ''[Errno 13] Permission denied'')],
          categories = []\<rparr>, bare_fs)
   \<and> path_exists bare_fs ''/src''
   \<and> e_walk missing_env ''/src'' = []
   \<and> start_processing missing_env twin_gui bare_fs
     = WorkerStarted twin_gui \<lparr>fs_files = [], fs_dirs = [''/src'', ''/out'']\<rparr>
   \<and> process_files missing_env twin_gui \<lparr>fs_files = [], fs_dirs = [''/src'', ''/out'']\<rparr>
     = (twin_gui\<lparr>processing := False\<rparr>,
        \<lparr>total_files = 0, processed_files = 0, errors = [], categories = []\<rparr>,
        \<lparr>fs_files = [], fs_dirs = [''/src'', ''/out'']\<rparr>)"
  by code_simp

text \<open>
  Claim C10. The statistics a run returns satisfy the accounting invariant: the number of
  processed files is the sum of the per-category counts, and the processed files and the
  recorded errors together are the files found, one count or one error for each file. The
  categories are the keys of a dictionary, so each occurs once in the sum.
\<close>

theorem C10_accounting:
  assumes "process_and_organize_files env input_dir output_dir org meta fs = (res, fs')"
  shows "processed_files res = sum_list (map snd (categories res))
       \<and> processed_files res + length (errors res) = total_files res
       \<and> total_files res = length (e_walk env input_dir)
       \<and> distinct (map fst (categories res))"
proof -
  let ?files = "e_walk env input_dir"
  let ?res0 = "\<lparr>total_files = length ?files, processed_files = 0, errors = [], categories = []\<rparr>"
  from assms
  have "process_loop env output_dir org meta (length ?files) 0 ?files (?res0, fs) = (res, fs')"
    by (simp add: process_and_organize_files_def Let_def)
  from process_loop_accounting [OF this] show ?thesis by simp
qed

theorem C10_witness:
  "process_and_organize_files demo_env ''/src'' ''/out'' True False dest_fs
     = (\<lparr>total_files = 6, processed_files = 5,
          errors = [(''/src/locked'', ''[Errno 13] Permission denied'')],
          categories = [(''Documents'', 3), (''Videos'', 1), (''Other'', 1)]\<rparr>,
        snd (process_and_organize_files demo_env ''/src'' ''/out'' True False dest_fs))
   \<and> (5::nat) = sum_list (map snd [(''Documents'', 3), (''Videos'', 1::nat), (''Other'', 1)])
   \<and> (5::nat) + length [(''/src/locked'', ''[Errno 13] Permission denied'')] = 6"
proof -
  have run: "fst (process_and_organize_files demo_env ''/src'' ''/out'' True False dest_fs)
     = \<lparr>total_files = 6, processed_files = 5,
          errors = [(''/src/locked'', ''[Errno 13] Permission denied'')],
          categories = [(''Documents'', 3), (''Videos'', 1), (''Other'', 1)]\<rparr>"
    by code_simp
  then have eq: "process_and_organize_files demo_env ''/src'' ''/out'' True False dest_fs
     = (\<lparr>total_files = 6, processed_files = 5,
          errors = [(''/src/locked'', ''[Errno 13] Permission denied'')],
          categories = [(''Documents'', 3), (''Videos'', 1), (''Other'', 1)]\<rparr>,
        snd (process_and_organize_files demo_env ''/src'' ''/out'' True False dest_fs))"
    by (metis prod.collapse)
  from C10_accounting [OF eq] eq show ?thesis by simp
qed

end
